theory Spec2Isabelle
  imports Main "HOL-Library.Multiset"
begin

section \<open>Strings\<close>

text \<open>
  A JavaScript string is a sequence of UTF-16 code units. The model keeps the code units
  below 256 and writes a string as a \<open>char list\<close>. The character tests of the source
  single out ASCII characters only (the digits for \<^verbatim>\<open>\D\<close>, the line feed for \<^verbatim>\<open>[^\n]\<close>, the
  separators, and the letters of \<^verbatim>\<open>FN\<close>, \<^verbatim>\<open>N\<close>, \<^verbatim>\<open>TEL\<close> and \<^verbatim>\<open>BEGIN:VCARD\<close> under the
  \<^verbatim>\<open>i\<close> flag), except \<^verbatim>\<open>trim\<close>, whose white space includes the no-break space.
\<close>

definition isDigit :: "char \<Rightarrow> bool" where
  "isDigit c = (c \<in> set ''0123456789'')"

subsection \<open>normalizePhoneNumber\<close>

text \<open>\<^verbatim>\<open>return phone.replace(/\D/g, '');\<close>: every character that is not a decimal digit is
  removed.\<close>

definition normalizePhoneNumber :: "string \<Rightarrow> string" where
  "normalizePhoneNumber phone = filter isDigit phone"


subsection \<open>Text helpers of the JavaScript runtime\<close>

abbreviation (input) LF :: char where "LF \<equiv> CHR 0x0A"
abbreviation (input) CR :: char where "CR \<equiv> CHR 0x0D"
abbreviation (input) TAB :: char where "TAB \<equiv> CHR 0x09"
abbreviation (input) BSL :: char where "BSL \<equiv> CHR 0x5C"

text \<open>\<^verbatim>\<open>String.prototype.trim\<close> strips white space and line terminators: TAB, LF, VT, FF, CR,
  SP and NBSP among the code units below 256.\<close>

definition isWhiteSpace :: "char \<Rightarrow> bool" where
  "isWhiteSpace c = (c \<in> set [CHR 0x09, CHR 0x0A, CHR 0x0B, CHR 0x0C, CHR 0x0D, CHR 0x20, CHR 0xA0])"

definition trim :: "string \<Rightarrow> string" where
  "trim s = rev (dropWhile isWhiteSpace (rev (dropWhile isWhiteSpace s)))"

text \<open>The \<^verbatim>\<open>i\<close> flag compares characters after canonicalization (upper-casing); a character
  outside ASCII never canonicalizes to an ASCII letter.\<close>

definition canonicalize :: "char \<Rightarrow> char" where
  "canonicalize c =
     (case map_of (zip ''abcdefghijklmnopqrstuvwxyz'' ''ABCDEFGHIJKLMNOPQRSTUVWXYZ'') c of
        Some u \<Rightarrow> u | None \<Rightarrow> c)"

definition ciEq :: "char \<Rightarrow> char \<Rightarrow> bool" where
  "ciEq p c = (canonicalize p = canonicalize c)"

text \<open>Does the literal pattern match at the start of the text, characters compared by \<open>eq\<close>?\<close>

fun startsWithBy :: "(char \<Rightarrow> char \<Rightarrow> bool) \<Rightarrow> string \<Rightarrow> string \<Rightarrow> bool" where
  "startsWithBy eq [] s = True"
| "startsWithBy eq (p # ps) [] = False"
| "startsWithBy eq (p # ps) (c # cs) = (eq p c \<and> startsWithBy eq ps cs)"

text \<open>\<^verbatim>\<open>s.replace(/pat/g, rep)\<close> for a literal, non-empty pattern: the matches are taken left to
  right and do not overlap.\<close>

fun replaceAll :: "string \<Rightarrow> string \<Rightarrow> string \<Rightarrow> string" where
  "replaceAll pat rep [] = []"
| "replaceAll pat rep (c # cs) =
     (if pat \<noteq> [] \<and> startsWithBy (=) pat (c # cs)
      then rep @ replaceAll pat rep (drop (length pat - 1) cs)
      else c # replaceAll pat rep cs)"

text \<open>\<^verbatim>\<open>s.split(sep)\<close> for a literal, non-empty separator (a string, or a regular expression
  that is a literal under the \<^verbatim>\<open>i\<close> flag); \<open>acc\<close> holds the current piece, reversed.\<close>

fun splitBy :: "(char \<Rightarrow> char \<Rightarrow> bool) \<Rightarrow> string \<Rightarrow> string \<Rightarrow> string \<Rightarrow> string list" where
  "splitBy eq sep acc [] = [rev acc]"
| "splitBy eq sep acc (c # cs) =
     (if sep \<noteq> [] \<and> startsWithBy eq sep (c # cs)
      then rev acc # splitBy eq sep [] (drop (length sep - 1) cs)
      else splitBy eq sep (c # acc) cs)"

text \<open>\<^verbatim>\<open>parts.join(sep)\<close>.\<close>

fun joinWith :: "string \<Rightarrow> string list \<Rightarrow> string" where
  "joinWith sep [] = []"
| "joinWith sep [p] = p"
| "joinWith sep (p # q # ps) = p @ sep @ joinWith sep (q # ps)"

text \<open>\<^verbatim>\<open>parts[i] || ''\<close>: an index out of range reads \<^verbatim>\<open>undefined\<close>, which is falsy.\<close>

definition nthOrEmpty :: "string list \<Rightarrow> nat \<Rightarrow> string" where
  "nthOrEmpty parts i = (if i < length parts then parts ! i else [])"

text \<open>\<^verbatim>\<open>s.slice(-n)\<close>: the last \<open>n\<close> characters, the whole string when it is shorter.\<close>

definition sliceLast :: "nat \<Rightarrow> string \<Rightarrow> string" where
  "sliceLast n s = drop (length s - n) s"

section \<open>Contact Directory Builder: parseVCard\<close>

text \<open>The vCard unescaping, four replacements one after the other:
  \<^verbatim>\<open>.replace(/\\,/g, ',').replace(/\\;/g, ';').replace(/\\n/g, ' ').replace(/\\\\/g, '\\')\<close>.\<close>

definition unescape :: "string \<Rightarrow> string" where
  "unescape s =
     replaceAll [BSL, BSL] [BSL]
       (replaceAll [BSL, CHR ''n''] '' ''
         (replaceAll [BSL, CHR '';''] '';''
           (replaceAll [BSL, CHR '',''] '','' s)))"

text \<open>Line endings and continuation lines:
  \<^verbatim>\<open>.replace(/\r\n/g, '\n').replace(/\r/g, '\n').replace(/\n[ \t]/g, '')\<close>.\<close>

fun removeContinuations :: "string \<Rightarrow> string" where
  "removeContinuations (a # b # cs) =
     (if a = LF \<and> (b = CHR '' '' \<or> b = TAB) then removeContinuations cs
      else a # removeContinuations (b # cs))"
| "removeContinuations cs = cs"

definition normalizeLines :: "string \<Rightarrow> string" where
  "normalizeLines vcardContent =
     removeContinuations (replaceAll [CR] [LF] (replaceAll [CR, LF] [LF] vcardContent))"

text \<open>The capture group \<^verbatim>\<open>([^\n]*)\<close>: the rest of the line.\<close>

definition restOfLine :: "string \<Rightarrow> string" where
  "restOfLine s = takeWhile (\<lambda>c. c \<noteq> LF) s"

text \<open>The optional \<^verbatim>\<open>[;:]?\<close> before the capture group: greedy, and what follows always
  matches, so one separator is skipped when it is there.\<close>

fun skipSeparator :: "string \<Rightarrow> string" where
  "skipSeparator [] = []"
| "skipSeparator (c # cs) = (if c = CHR '';'' \<or> c = CHR '':'' then cs else c # cs)"

text \<open>\<^verbatim>\<open>contact.match(/FN[;:]?([^\n]*)/i)\<close>: group 1 of the leftmost match, \<open>None\<close> when the
  two letters occur nowhere.\<close>

fun fnMatch :: "string \<Rightarrow> string option" where
  "fnMatch (a # b # cs) =
     (if ciEq (CHR ''F'') a \<and> ciEq (CHR ''N'') b then Some (restOfLine (skipSeparator cs))
      else fnMatch (b # cs))"
| "fnMatch cs = None"

text \<open>\<^verbatim>\<open>contact.match(/^N[;:]?([^\n]*)/im)\<close>: with the \<^verbatim>\<open>m\<close> flag, \<^verbatim>\<open>^\<close> matches at the start of
  the text and after a line terminator. \<open>atLineStart\<close> says whether the position is one.\<close>

fun nMatchFrom :: "bool \<Rightarrow> string \<Rightarrow> string option" where
  "nMatchFrom atLineStart [] = None"
| "nMatchFrom atLineStart (c # cs) =
     (if atLineStart \<and> ciEq (CHR ''N'') c then Some (restOfLine (skipSeparator cs))
      else nMatchFrom (c = LF \<or> c = CR) cs)"

definition nMatch :: "string \<Rightarrow> string option" where
  "nMatch contact = nMatchFrom True contact"

text \<open>The name from the structured field:
  \<^verbatim>\<open>nMatch[1].split(';').map(p => p.trim()).filter(p => p)\<close>, then given and family by index.\<close>

definition nameFromN :: "string \<Rightarrow> string" where
  "nameFromN v =
     (let nameParts = filter (\<lambda>p. p \<noteq> []) (map trim (splitBy (=) '';'' [] v)) in
      if length nameParts > 0 then
        (let given = nthOrEmpty nameParts 1;
             family = nthOrEmpty nameParts 0;
             name = trim (joinWith '' '' (filter (\<lambda>p. p \<noteq> []) [given, family]))
         in if name = [] \<and> length nameParts > 0
            then (case find (\<lambda>p. p \<noteq> []) nameParts of Some p \<Rightarrow> p | None \<Rightarrow> [])
            else name)
      else [])"

definition deriveName :: "string \<Rightarrow> string" where
  "deriveName contact =
     (let name = (case fnMatch contact of Some v \<Rightarrow> unescape (trim v) | None \<Rightarrow> []) in
      if name = [] then (case nMatch contact of Some v \<Rightarrow> nameFromN v | None \<Rightarrow> [])
      else name)"

text \<open>\<^verbatim>\<open>contact.matchAll(/TEL[^:\n]*:([^\n]*)/gi)\<close>: group 1 of every match, left to right. The
  parameter part \<^verbatim>\<open>[^:\n]*\<close> stops at the first colon or line end; it cannot give back a
  colon, so the match succeeds exactly when a colon comes first. The search goes on at the
  end of the match.\<close>

function telMatches :: "string \<Rightarrow> string list" where
  "telMatches [] = []"
| "telMatches (c # cs) =
     (if startsWithBy ciEq ''TEL'' (c # cs) then
        (case dropWhile (\<lambda>x. x \<noteq> CHR '':'' \<and> x \<noteq> LF) (drop 2 cs) of
           [] \<Rightarrow> telMatches cs
         | d # v \<Rightarrow>
             if d = CHR '':'' then restOfLine v # telMatches (dropWhile (\<lambda>x. x \<noteq> LF) v)
             else telMatches cs)
      else telMatches cs)"
  by pat_completeness auto
termination
proof (relation "measure length")
  fix c :: char and cs d v
  assume "dropWhile (\<lambda>x. x \<noteq> CHR '':'' \<and> x \<noteq> LF) (drop 2 cs) = d # v"
  then have "length (d # v) \<le> length (drop 2 cs)"
    by (metis length_dropWhile_le)
  moreover have "length (dropWhile (\<lambda>x. x \<noteq> LF) v) \<le> length v"
    by (rule length_dropWhile_le)
  ultimately show "(dropWhile (\<lambda>x. x \<noteq> LF) v, c # cs) \<in> measure length"
    by simp
qed simp_all

text \<open>One telephone value: unescape, normalize, and store the key and its variants when
  the key has at least 10 digits. Every store is \<^verbatim>\<open>phoneToName.set(key, name)\<close>.\<close>

definition storePhone :: "string \<Rightarrow> string \<Rightarrow> (string \<rightharpoonup> string) \<Rightarrow> (string \<rightharpoonup> string)" where
  "storePhone name tel phoneToName =
     (let phone = unescape (trim tel);
          normalizedPhone = normalizePhoneNumber phone
      in if normalizedPhone \<noteq> [] \<and> length normalizedPhone \<ge> 10 then
           (let m1 = phoneToName(normalizedPhone \<mapsto> name);
                m2 = (if length normalizedPhone > 10
                      then m1(sliceLast 10 normalizedPhone \<mapsto> name) else m1);
                m3 = (if length normalizedPhone = 11 \<and> take 1 normalizedPhone = ''1''
                      then m2(drop 1 normalizedPhone \<mapsto> name) else m2)
            in m3)
         else phoneToName)"

text \<open>The body of the loop over the contacts.\<close>

definition processContact :: "string \<Rightarrow> (string \<rightharpoonup> string) \<Rightarrow> (string \<rightharpoonup> string)" where
  "processContact contact phoneToName =
     (if trim contact = [] then phoneToName
      else (let name = deriveName contact in
            if name = [] then phoneToName
            else fold (storePhone name) (telMatches contact) phoneToName))"

definition splitContacts :: "string \<Rightarrow> string list" where
  "splitContacts vcardContent = splitBy ciEq ''BEGIN:VCARD'' [] (normalizeLines vcardContent)"

definition parseVCard :: "string \<Rightarrow> (string \<rightharpoonup> string)" where
  "parseVCard vcardContent = fold processContact (splitContacts vcardContent) Map.empty"


section \<open>Message Store Aggregator\<close>

text \<open>
  The uploaded \<^verbatim>\<open>chat.db\<close> is read through the four tables the queries name, each with the
  columns the queries use. \<^verbatim>\<open>ROWID\<close> is SQLite's integer row id and is never NULL; the handle's
  \<^verbatim>\<open>id\<close> is the text of the phone number or account; every other column may hold NULL
  (\<open>None\<close>). A table that the file does not have is \<open>None\<close>.
\<close>

record message_row =
  m_ROWID :: int
  m_guid :: "string option"
  m_text :: "string option"
  m_date :: "int option"
  m_date_read :: "int option"
  m_is_from_me :: "int option"
  m_handle_id :: "int option"

record handle_row =
  h_ROWID :: int
  h_id :: string

record chat_message_join_row =
  cmj_chat_id :: "int option"
  cmj_message_id :: "int option"

record chat_row =
  c_ROWID :: int
  c_chat_identifier :: "string option"
  c_display_name :: "string option"

record database =
  message_table :: "message_row list option"
  handle_table :: "handle_row list option"
  chat_message_join_table :: "chat_message_join_row list option"
  chat_table :: "chat_row list option"

text \<open>The bytes of the upload either are an SQLite database or are not; sql.js opens both
  and reports a file that is not a database at the first query.\<close>

datatype database_file = NotADatabase | Database database

subsection \<open>SQL operators\<close>

text \<open>\<^verbatim>\<open>LEFT JOIN rows ON on\<close>, for one row of the left side: the matching rows, or a single
  all-NULL row when none matches.\<close>

definition leftJoin :: "('b \<Rightarrow> bool) \<Rightarrow> 'b list \<Rightarrow> 'b option list" where
  "leftJoin on rows = (if filter on rows = [] then [None] else map Some (filter on rows))"

text \<open>\<^verbatim>\<open>GROUP BY key\<close>: one group for each distinct key, holding the rows with that key.\<close>

definition groupBy :: "('r \<Rightarrow> 'k) \<Rightarrow> 'r list \<Rightarrow> ('k \<times> 'r list) list" where
  "groupBy key rows = map (\<lambda>k. (k, filter (\<lambda>r. key r = k) rows)) (remdups (map key rows))"

text \<open>\<^verbatim>\<open>ORDER BY\<close> as a stable insertion sort by the comparison \<open>le\<close>. SQL leaves the order of
  rows with equal keys open; the model keeps them in the order they had.\<close>

fun insertBy :: "('a \<Rightarrow> 'a \<Rightarrow> bool) \<Rightarrow> 'a \<Rightarrow> 'a list \<Rightarrow> 'a list" where
  "insertBy le x [] = [x]"
| "insertBy le x (y # ys) = (if le x y then x # y # ys else y # insertBy le x ys)"

definition orderBy :: "('a \<Rightarrow> 'a \<Rightarrow> bool) \<Rightarrow> 'a list \<Rightarrow> 'a list" where
  "orderBy le rows = foldr (insertBy le) rows []"

text \<open>SQLite sorts NULL before every value: it comes last under \<^verbatim>\<open>DESC\<close> and first under
  \<^verbatim>\<open>ASC\<close>.\<close>

definition descNullsLast :: "int option \<Rightarrow> int option \<Rightarrow> bool" where
  "descNullsLast a b =
     (case a of None \<Rightarrow> b = None | Some x \<Rightarrow> (case b of None \<Rightarrow> True | Some y \<Rightarrow> y \<le> x))"

definition ascNullsFirst :: "int option \<Rightarrow> int option \<Rightarrow> bool" where
  "ascNullsFirst a b =
     (case a of None \<Rightarrow> True | Some x \<Rightarrow> (case b of None \<Rightarrow> False | Some y \<Rightarrow> x \<le> y))"

text \<open>SQLite divides integers with truncation toward zero.\<close>

definition truncDiv :: "int \<Rightarrow> int \<Rightarrow> int" where
  "truncDiv a b = (if a < 0 then - ((- a) div b) else a div b)"

text \<open>
  \<^verbatim>\<open>datetime(m.date/1000000000 + 978307200, 'unixepoch', 'localtime')\<close>: the local time of a
  message as an instant, in seconds; NULL when the date is NULL. \<open>tz\<close> is the offset of the
  server's time zone at a Unix time, in seconds. (A 64-bit date divided by \<open>10\<^sup>9\<close> is always
  inside the range of dates that SQLite accepts.) The model keeps the instant where SQLite
  renders a text: \<^verbatim>\<open>date(...)\<close> is the day number \<open>dayOf\<close>, whose order is the order of the
  rendered \<^verbatim>\<open>YYYY-MM-DD\<close> texts, and \<^verbatim>\<open>CAST(strftime('%H', ...) AS INTEGER)\<close> is \<open>hourOf\<close>.
\<close>

definition localTime :: "(int \<Rightarrow> int) \<Rightarrow> int option \<Rightarrow> int option" where
  "localTime tz d =
     (case d of None \<Rightarrow> None
      | Some n \<Rightarrow> (let unixepoch = truncDiv n 1000000000 + 978307200 in Some (unixepoch + tz unixepoch)))"

definition dayOf :: "int option \<Rightarrow> int option" where
  "dayOf t = map_option (\<lambda>s. s div 86400) t"

definition hourOf :: "int option \<Rightarrow> int option" where
  "hourOf t = map_option (\<lambda>s. (s div 3600) mod 24) t"

subsection \<open>The four queries\<close>

text \<open>
  A row of \<^verbatim>\<open>messagesQuery\<close>, columns 0 to 10:
  \<^verbatim>\<open>m.ROWID, m.guid, m.text, m.date, m.date_read, m.is_from_me, m.handle_id, h.id as phone_number,
  c.chat_identifier, c.display_name, datetime(...) as readable_date\<close>.
\<close>

record message_result =
  r_ROWID :: int
  r_guid :: "string option"
  r_text :: "string option"
  r_date :: "int option"
  r_date_read :: "int option"
  r_is_from_me :: "int option"
  r_handle_id :: "int option"
  r_phone_number :: "string option"
  r_chat_identifier :: "string option"
  r_display_name :: "string option"
  r_readable_date :: "int option"

definition messageResult ::
  "(int \<Rightarrow> int) \<Rightarrow> message_row \<Rightarrow> handle_row option \<Rightarrow> chat_row option \<Rightarrow> message_result" where
  "messageResult tz m h c =
     \<lparr>r_ROWID = m_ROWID m, r_guid = m_guid m, r_text = m_text m, r_date = m_date m,
      r_date_read = m_date_read m, r_is_from_me = m_is_from_me m, r_handle_id = m_handle_id m,
      r_phone_number = map_option h_id h,
      r_chat_identifier = Option.bind c c_chat_identifier,
      r_display_name = Option.bind c c_display_name,
      r_readable_date = localTime tz (m_date m)\<rparr>"

text \<open>\<^verbatim>\<open>ON cmj.chat_id = c.ROWID\<close>, where the join row may be the all-NULL one.\<close>

definition onChat :: "chat_message_join_row option \<Rightarrow> chat_row \<Rightarrow> bool" where
  "onChat j c = (case j of None \<Rightarrow> False | Some cmj \<Rightarrow> cmj_chat_id cmj = Some (c_ROWID c))"

text \<open>
  \<^verbatim>\<open>FROM message m LEFT JOIN handle h ON m.handle_id = h.ROWID
  LEFT JOIN chat_message_join cmj ON m.ROWID = cmj.message_id
  LEFT JOIN chat c ON cmj.chat_id = c.ROWID\<close>, for one message; then all of them,
  \<^verbatim>\<open>ORDER BY m.date DESC\<close>.
\<close>

definition messageJoin ::
  "(int \<Rightarrow> int) \<Rightarrow> handle_row list \<Rightarrow> chat_message_join_row list \<Rightarrow> chat_row list \<Rightarrow>
   message_row \<Rightarrow> message_result list" where
  "messageJoin tz hs js cs m =
     [messageResult tz m h c.
        h \<leftarrow> leftJoin (\<lambda>h. m_handle_id m = Some (h_ROWID h)) hs,
        j \<leftarrow> leftJoin (\<lambda>j. cmj_message_id j = Some (m_ROWID m)) js,
        c \<leftarrow> leftJoin (onChat j) cs]"

definition messagesRows ::
  "(int \<Rightarrow> int) \<Rightarrow> message_row list \<Rightarrow> handle_row list \<Rightarrow> chat_message_join_row list \<Rightarrow>
   chat_row list \<Rightarrow> message_result list" where
  "messagesRows tz ms hs js cs =
     orderBy (\<lambda>a b. descNullsLast (r_date a) (r_date b)) (concat (map (messageJoin tz hs js cs) ms))"

text \<open>
  \<^verbatim>\<open>contactsQuery\<close>:
  \<^verbatim>\<open>SELECT DISTINCT h.ROWID, h.id as phone_number, COUNT(*) as message_count,
    SUM(CASE WHEN m.is_from_me = 0 THEN 1 ELSE 0 END) as received_count,
    SUM(CASE WHEN m.is_from_me = 1 THEN 1 ELSE 0 END) as sent_count
  FROM handle h LEFT JOIN message m ON h.ROWID = m.handle_id
  GROUP BY h.ROWID, h.id ORDER BY message_count DESC\<close>.
  \<^verbatim>\<open>COUNT(*)\<close> counts the rows of the group, the all-NULL row of a handle without messages
  included; a comparison with NULL is not true, so such a row adds 0 to both sums.
\<close>

record contact_result =
  cr_ROWID :: int
  cr_phone_number :: string
  cr_message_count :: nat
  cr_received_count :: nat
  cr_sent_count :: nat

definition joinedFlag :: "message_row option \<Rightarrow> int option" where
  "joinedFlag m = Option.bind m m_is_from_me"

definition contactJoin :: "message_row list \<Rightarrow> handle_row list \<Rightarrow> (handle_row \<times> message_row option) list" where
  "contactJoin ms hs = [(h, m). h \<leftarrow> hs, m \<leftarrow> leftJoin (\<lambda>m. m_handle_id m = Some (h_ROWID h)) ms]"

definition contactResult :: "(int \<times> string) \<times> (handle_row \<times> message_row option) list \<Rightarrow> contact_result" where
  "contactResult kg =
     \<lparr>cr_ROWID = fst (fst kg), cr_phone_number = snd (fst kg),
      cr_message_count = length (snd kg),
      cr_received_count = length (filter (\<lambda>hm. joinedFlag (snd hm) = Some 0) (snd kg)),
      cr_sent_count = length (filter (\<lambda>hm. joinedFlag (snd hm) = Some 1) (snd kg))\<rparr>"

definition contactsRows :: "message_row list \<Rightarrow> handle_row list \<Rightarrow> contact_result list" where
  "contactsRows ms hs =
     orderBy (\<lambda>a b. cr_message_count b \<le> cr_message_count a)
       (remdups (map contactResult
          (groupBy (\<lambda>hm. (h_ROWID (fst hm), h_id (fst hm))) (contactJoin ms hs))))"

text \<open>
  \<^verbatim>\<open>dailyStatsQuery\<close>: \<^verbatim>\<open>SELECT date(datetime(...)) as day, COUNT(*) as count FROM message m
  GROUP BY day ORDER BY day DESC LIMIT 365\<close>, and \<^verbatim>\<open>hourlyStatsQuery\<close>:
  \<^verbatim>\<open>SELECT CAST(strftime('%H', datetime(...)) AS INTEGER) as hour, COUNT(*) as count
  FROM message m GROUP BY hour ORDER BY hour\<close>.
\<close>

definition countRows :: "'k \<times> 'r list \<Rightarrow> 'k \<times> nat" where
  "countRows kg = (fst kg, length (snd kg))"

definition dailyStatsRows :: "(int \<Rightarrow> int) \<Rightarrow> message_row list \<Rightarrow> (int option \<times> nat) list" where
  "dailyStatsRows tz ms =
     take 365 (orderBy (\<lambda>a b. descNullsLast (fst a) (fst b))
       (map countRows (groupBy (\<lambda>m. dayOf (localTime tz (m_date m))) ms)))"

definition hourlyStatsRows :: "(int \<Rightarrow> int) \<Rightarrow> message_row list \<Rightarrow> (int option \<times> nat) list" where
  "hourlyStatsRows tz ms =
     orderBy (\<lambda>a b. ascNullsFirst (fst a) (fst b))
       (map countRows (groupBy (\<lambda>m. hourOf (localTime tz (m_date m))) ms))"


subsection \<open>Running a query\<close>

text \<open>\<^verbatim>\<open>db.exec(query)\<close> throws when the file is not a database or a table of the query is
  missing, with SQLite's message; the tables are resolved in the order of the FROM clause.\<close>

definition messagesQuery :: "(int \<Rightarrow> int) \<Rightarrow> database_file \<Rightarrow> string + message_result list" where
  "messagesQuery tz f =
     (case f of NotADatabase \<Rightarrow> Inl ''file is not a database''
      | Database db \<Rightarrow>
         (case message_table db of None \<Rightarrow> Inl ''no such table: message''
          | Some ms \<Rightarrow>
         (case handle_table db of None \<Rightarrow> Inl ''no such table: handle''
          | Some hs \<Rightarrow>
         (case chat_message_join_table db of None \<Rightarrow> Inl ''no such table: chat_message_join''
          | Some js \<Rightarrow>
         (case chat_table db of None \<Rightarrow> Inl ''no such table: chat''
          | Some cs \<Rightarrow> Inr (messagesRows tz ms hs js cs))))))"

definition contactsQuery :: "database_file \<Rightarrow> string + contact_result list" where
  "contactsQuery f =
     (case f of NotADatabase \<Rightarrow> Inl ''file is not a database''
      | Database db \<Rightarrow>
         (case handle_table db of None \<Rightarrow> Inl ''no such table: handle''
          | Some hs \<Rightarrow>
         (case message_table db of None \<Rightarrow> Inl ''no such table: message''
          | Some ms \<Rightarrow> Inr (contactsRows ms hs))))"

definition dailyStatsQuery :: "(int \<Rightarrow> int) \<Rightarrow> database_file \<Rightarrow> string + (int option \<times> nat) list" where
  "dailyStatsQuery tz f =
     (case f of NotADatabase \<Rightarrow> Inl ''file is not a database''
      | Database db \<Rightarrow>
         (case message_table db of None \<Rightarrow> Inl ''no such table: message''
          | Some ms \<Rightarrow> Inr (dailyStatsRows tz ms)))"

definition hourlyStatsQuery :: "(int \<Rightarrow> int) \<Rightarrow> database_file \<Rightarrow> string + (int option \<times> nat) list" where
  "hourlyStatsQuery tz f =
     (case f of NotADatabase \<Rightarrow> Inl ''file is not a database''
      | Database db \<Rightarrow>
         (case message_table db of None \<Rightarrow> Inl ''no such table: message''
          | Some ms \<Rightarrow> Inr (hourlyStatsRows tz ms)))"

section \<open>Statistics Assembler and the request handler\<close>

text \<open>\<^verbatim>\<open>a || b\<close> on values that are a string, \<^verbatim>\<open>undefined\<close> or \<^verbatim>\<open>null\<close>: the empty string is
  falsy too.\<close>

definition jsOr :: "string option \<Rightarrow> string option \<Rightarrow> string option" where
  "jsOr a b = (case a of None \<Rightarrow> b | Some v \<Rightarrow> if v = [] then b else Some v)"

text \<open>\<^verbatim>\<open>getContactName\<close>: no name for a missing or empty phone number; otherwise the
  directory's name for the normalized number, or for its last 10 digits.\<close>

definition getContactName :: "(string \<rightharpoonup> string) \<Rightarrow> string option \<Rightarrow> string option" where
  "getContactName phoneToNameMap phoneNumber =
     (case phoneNumber of None \<Rightarrow> None
      | Some p \<Rightarrow>
          if p = [] then None
          else (let normalized = normalizePhoneNumber p in
                jsOr (jsOr (phoneToNameMap normalized) (phoneToNameMap (sliceLast 10 normalized)))
                  None))"

text \<open>The entries of \<^verbatim>\<open>formattedMessages\<close> and \<^verbatim>\<open>formattedContacts\<close>; the fields carry the
  names of the JSON keys after a prefix.\<close>

record formatted_message =
  fm_id :: int
  fm_guid :: "string option"
  fm_text :: "string option"
  fm_date :: "int option"
  fm_dateRead :: "int option"
  fm_isFromMe :: bool
  fm_handleId :: "int option"
  fm_phoneNumber :: "string option"
  fm_contactName :: "string option"
  fm_chatIdentifier :: "string option"
  fm_displayName :: "string option"
  fm_readableDate :: "int option"

definition formatMessage :: "(string \<rightharpoonup> string) \<Rightarrow> message_result \<Rightarrow> formatted_message" where
  "formatMessage phoneToNameMap msg =
     \<lparr>fm_id = r_ROWID msg, fm_guid = r_guid msg, fm_text = r_text msg, fm_date = r_date msg,
      fm_dateRead = r_date_read msg, fm_isFromMe = (r_is_from_me msg = Some 1),
      fm_handleId = r_handle_id msg, fm_phoneNumber = r_phone_number msg,
      fm_contactName = getContactName phoneToNameMap (r_phone_number msg),
      fm_chatIdentifier = r_chat_identifier msg, fm_displayName = r_display_name msg,
      fm_readableDate = r_readable_date msg\<rparr>"

record formatted_contact =
  fc_id :: int
  fc_phoneNumber :: string
  fc_contactName :: "string option"
  fc_messageCount :: nat
  fc_receivedCount :: nat
  fc_sentCount :: nat

definition formatContact :: "(string \<rightharpoonup> string) \<Rightarrow> contact_result \<Rightarrow> formatted_contact" where
  "formatContact phoneToNameMap contact =
     \<lparr>fc_id = cr_ROWID contact, fc_phoneNumber = cr_phone_number contact,
      fc_contactName = getContactName phoneToNameMap (Some (cr_phone_number contact)),
      fc_messageCount = cr_message_count contact,
      fc_receivedCount = cr_received_count contact,
      fc_sentCount = cr_sent_count contact\<rparr>"

record summary_counts =
  totalMessages :: nat
  sentMessages :: nat
  receivedMessages :: nat
  uniqueContacts :: nat

record daily_stat =
  day :: "int option"
  dayCount :: nat

record hourly_stat =
  hour :: "int option"
  hourCount :: nat

record analysis_result =
  summary :: summary_counts
  contacts :: "formatted_contact list"
  dailyStats :: "daily_stat list"
  hourlyStats :: "hourly_stat list"
  messages :: "formatted_message list"

text \<open>The statistics and the response body: \<^verbatim>\<open>m[5]\<close> is the \<^verbatim>\<open>is_from_me\<close> column, compared
  with \<^verbatim>\<open>=== 1\<close> for sent and \<^verbatim>\<open>=== 0\<close> for received; the message list is
  \<^verbatim>\<open>formattedMessages.slice(0, 100)\<close>.\<close>

definition assemble ::
  "(string \<rightharpoonup> string) \<Rightarrow> message_result list \<Rightarrow> contact_result list \<Rightarrow>
   (int option \<times> nat) list \<Rightarrow> (int option \<times> nat) list \<Rightarrow> analysis_result" where
  "assemble phoneToNameMap msgs cs daily hourly =
     \<lparr>summary =
        \<lparr>totalMessages = length msgs,
         sentMessages = length (filter (\<lambda>m. r_is_from_me m = Some 1) msgs),
         receivedMessages = length (filter (\<lambda>m. r_is_from_me m = Some 0) msgs),
         uniqueContacts = length cs\<rparr>,
      contacts = map (formatContact phoneToNameMap) cs,
      dailyStats = map (\<lambda>stat. \<lparr>day = fst stat, dayCount = snd stat\<rparr>) daily,
      hourlyStats = map (\<lambda>stat. \<lparr>hour = fst stat, hourCount = snd stat\<rparr>) hourly,
      messages = take 100 (map (formatMessage phoneToNameMap) msgs)\<rparr>"

subsection \<open>POST\<close>

text \<open>
  The request's form: the database upload and the optional contacts upload, whose text can
  be read (\<open>ContactsText\<close>) or not (\<open>ContactsUnreadable\<close>: \<^verbatim>\<open>contactsFile.text()\<close> throws). The
  environment gives the time zone and whether \<^verbatim>\<open>sql-wasm.wasm\<close> was found (\<open>wasmError\<close> is the
  message of the error thrown when both paths fail).
\<close>

datatype contacts_file = ContactsText string | ContactsUnreadable

record request =
  req_file :: "database_file option"
  req_contactsFile :: "contacts_file option"

record environment =
  localOffset :: "int \<Rightarrow> int"
  wasmError :: "string option"

text \<open>What the handler returns, and what it leaves of the database it opened with
  \<^verbatim>\<open>new SQL.Database(...)\<close>: never opened, still open, or closed by \<^verbatim>\<open>db.close()\<close>.\<close>

datatype store_state = NotOpened | Open | Closed

datatype response = Json200 analysis_result | JsonError nat string

text \<open>\<^verbatim>\<open>error.message || 'Failed to analyze chat.db'\<close>.\<close>

definition errorMessage :: "string \<Rightarrow> string" where
  "errorMessage msg = (if msg = [] then ''Failed to analyze chat.db'' else msg)"

text \<open>The inner \<^verbatim>\<open>try\<close>: the directory stays the empty \<^verbatim>\<open>new Map()\<close> when there is no contacts
  file or reading it throws.\<close>

definition loadContacts :: "contacts_file option \<Rightarrow> (string \<rightharpoonup> string)" where
  "loadContacts cf =
     (case cf of None \<Rightarrow> Map.empty
      | Some ContactsUnreadable \<Rightarrow> Map.empty
      | Some (ContactsText contactsContent) \<Rightarrow> parseVCard contactsContent)"

text \<open>
  The handler. Without a file it answers 400 before anything is opened. A failure to load
  the WebAssembly binary is thrown before the database is opened. Each \<^verbatim>\<open>db.exec\<close> may throw;
  the \<^verbatim>\<open>catch\<close> block answers 500 with the message and does nothing else. \<^verbatim>\<open>db.close()\<close> is
  called once, after the four queries and the formatting, before the 200 response.
\<close>

definition POST :: "environment \<Rightarrow> request \<Rightarrow> response \<times> store_state" where
  "POST env req =
     (case req_file req of
        None \<Rightarrow> (JsonError 400 ''No file provided'', NotOpened)
      | Some f \<Rightarrow>
          (let phoneToNameMap = loadContacts (req_contactsFile req) in
           case wasmError env of
             Some msg \<Rightarrow> (JsonError 500 (errorMessage msg), NotOpened)
           | None \<Rightarrow>
          (case messagesQuery (localOffset env) f of
             Inl msg \<Rightarrow> (JsonError 500 (errorMessage msg), Open)
           | Inr msgs \<Rightarrow>
          (case contactsQuery f of
             Inl msg \<Rightarrow> (JsonError 500 (errorMessage msg), Open)
           | Inr cs \<Rightarrow>
          (case dailyStatsQuery (localOffset env) f of
             Inl msg \<Rightarrow> (JsonError 500 (errorMessage msg), Open)
           | Inr daily \<Rightarrow>
          (case hourlyStatsQuery (localOffset env) f of
             Inl msg \<Rightarrow> (JsonError 500 (errorMessage msg), Open)
           | Inr hourly \<Rightarrow>
               (Json200 (assemble phoneToNameMap msgs cs daily hourly), Closed)))))))"


section \<open>Auxiliary definitions\<close>

subsection \<open>What a record writes\<close>

text \<open>The keys that \<open>storePhone\<close> writes for one telephone value, in the order of its
  \<^verbatim>\<open>set\<close> calls, and the keys that a whole record writes. They describe the code above
  (\<open>storePhone_eq\<close>, \<open>processContact_eq\<close> below) and are used in the statements below.\<close>

definition phoneKeys :: "string \<Rightarrow> string list" where
  "phoneKeys tel =
     (let normalizedPhone = normalizePhoneNumber (unescape (trim tel)) in
      if length normalizedPhone \<ge> 10 then
        [normalizedPhone]
        @ (if length normalizedPhone > 10 then [sliceLast 10 normalizedPhone] else [])
        @ (if length normalizedPhone = 11 \<and> take 1 normalizedPhone = ''1''
           then [drop 1 normalizedPhone] else [])
      else [])"

definition contactKeys :: "string \<Rightarrow> string list" where
  "contactKeys contact =
     (if trim contact = [] \<or> deriveName contact = [] then []
      else concat (map phoneKeys (telMatches contact)))"

text \<open>The trimmed components of a structured-name value, before the empty ones are
  filtered out: family, given, additional, prefix, suffix by position.\<close>

definition components :: "string \<Rightarrow> string list" where
  "components w = map trim (splitBy (=) '';'' [] w)"

definition trimmed :: "string \<Rightarrow> bool" where
  "trimmed t = (t = [] \<or> (\<not> isWhiteSpace (hd t) \<and> \<not> isWhiteSpace (last t)))"

definition linesOf :: "string \<Rightarrow> string list" where
  "linesOf s = splitBy (=) [LF] [] s"

subsection \<open>The fields of a record, line by line\<close>

text \<open>The specification speaks of the full-name field and the structured-name field of a
  record. The definitions below read a record as the specification does, line by line, and
  do not use the matching functions of the code: \<open>containsCI\<close> tells whether a pattern occurs
  somewhere in a text (letters compared without case), \<open>firstLineWith\<close> is the first line of
  a record with a given property, \<open>fullNameValue\<close> is the value of a field written
  \<^verbatim>\<open>FN:value\<close> on the first line on which the letters FN occur at all, and
  \<open>structuredNameValue\<close> is the value of a field written \<^verbatim>\<open>N:value\<close> on the first line that
  starts with N. Both are \<open>None\<close> when that line has another form (a parameter after the
  field name, the letters inside another field).\<close>

fun containsCI :: "string \<Rightarrow> string \<Rightarrow> bool" where
  "containsCI pat [] = (pat = [])"
| "containsCI pat (c # cs) = (startsWithBy ciEq pat (c # cs) \<or> containsCI pat cs)"

definition firstLineWith :: "(string \<Rightarrow> bool) \<Rightarrow> string \<Rightarrow> string option" where
  "firstLineWith P c = find P (linesOf c)"

definition fullNameValue :: "string \<Rightarrow> string option" where
  "fullNameValue c =
     (case firstLineWith (containsCI ''FN'') c of
        Some (f # n # s # v) \<Rightarrow>
          if ciEq (CHR ''F'') f \<and> ciEq (CHR ''N'') n \<and> s = CHR '':'' then Some v else None
      | _ \<Rightarrow> None)"

definition structuredNameValue :: "string \<Rightarrow> string option" where
  "structuredNameValue c =
     (case firstLineWith (startsWithBy ciEq ''N'') c of
        Some (n # s # v) \<Rightarrow> if s = CHR '':'' then Some v else None
      | _ \<Rightarrow> None)"

subsection \<open>Address-book texts used below\<close>

definition janeDoeText :: string where
  "janeDoeText = ''BEGIN:VCARD\<newline>FN:Jane Doe\<newline>TEL:+1 (555) 123-4567\<newline>END:VCARD''"

definition aliceText :: string where
  "aliceText = ''BEGIN:VCARD\<newline>FN:Alice\<newline>TEL:555-123-4567\<newline>END:VCARD\<newline>''"

definition bobText :: string where
  "bobText = ''BEGIN:VCARD\<newline>FN:Bob\<newline>TEL:(555) 123 4567\<newline>END:VCARD\<newline>''"

definition janeThenBobText :: string where
  "janeThenBobText = janeDoeText @ ''\<newline>'' @ bobText"

definition halfnoteText :: string where
  "halfnoteText =
     ''BEGIN:VCARD\<newline>ORG:Halfnote Inc\<newline>TEL:555-123-4567\<newline>END:VCARD\<newline>''
   @ ''BEGIN:VCARD\<newline>X-FNORD;a:b\<newline>TEL:555-123-4568\<newline>END:VCARD''"

definition namesText :: string where
  "namesText =
     ''BEGIN:VCARD\<newline>FN;CHARSET=UTF-8:Jane Doe\<newline>TEL:555-000-0001\<newline>END:VCARD\<newline>''
   @ ''BEGIN:VCARD\<newline>FN:\<newline>N:Doe;John\<newline>TEL:555-000-0002\<newline>END:VCARD\<newline>''
   @ ''BEGIN:VCARD\<newline>FN:Ann'' @ [BSL] @ ''nLee\<newline>TEL:555-000-0003\<newline>END:VCARD\<newline>''
   @ ''BEGIN:VCARD\<newline>N:;John;Quincy\<newline>TEL:555-000-0004\<newline>END:VCARD\<newline>''
   @ ''BEGIN:VCARD\<newline>ORG:Halfnote Inc\<newline>FN:Jane Doe\<newline>TEL:555-000-0005\<newline>END:VCARD\<newline>''
   @ ''BEGIN:VCARD\<newline>NOTE:hello\<newline>N:Doe;John\<newline>TEL:555-000-0006\<newline>END:VCARD\<newline>''"

definition fullNameChunk :: string where
  "fullNameChunk =
     ''\<newline>FN:Doe'' @ [BSL] @ '', Jane\<newline>N:Doe;Jane;;;\<newline>TEL:555-000-0001\<newline>END:VCARD''"

definition emptyFullNameChunk :: string where
  "emptyFullNameChunk = ''\<newline>FN:\<newline>N:Doe;John\<newline>TEL:555-000-0002\<newline>END:VCARD\<newline>''"

definition structuredNameChunk :: string where
  "structuredNameChunk = ''\<newline>N: Doe ; John ;;;\<newline>TEL:555-000-0004\<newline>END:VCARD\<newline>''"

definition givenOnlyChunk :: string where
  "givenOnlyChunk = ''\<newline>N:;John;;;\<newline>TEL:555-000-0004\<newline>END:VCARD\<newline>''"

definition namelessChunk :: string where
  "namelessChunk = ''\<newline>ORG:Acme\<newline>TEL:555-000-0005\<newline>END:VCARD\<newline>''"

text \<open>A text with Windows line ends and a carriage return at its end.\<close>

definition crlfText :: string where
  "crlfText = [CHR ''B'', CHR ''E'', CHR ''G'', CHR ''I'', CHR ''N'', CHR '':'', CHR ''V'', CHR ''C'',
     CHR ''A'', CHR ''R'', CHR ''D'', CR, LF] @ ''FN:Jane Doe'' @ [CR, LF] @ ''TEL:555-000-0007'' @ [CR]"

subsection \<open>Requests and stores used below\<close>

text \<open>The result of a request that succeeded.\<close>

definition resultOf :: "response \<times> store_state \<Rightarrow> analysis_result option" where
  "resultOf out = (case fst out of Json200 r \<Rightarrow> Some r | JsonError status e \<Rightarrow> None)"

text \<open>A message row with the columns the statistics read (ROWID, date, direction flag,
  handle), a database with the given messages and handles and no chats, and a server in UTC
  that found its WebAssembly binary.\<close>

definition messageRow :: "int \<Rightarrow> int option \<Rightarrow> int option \<Rightarrow> int option \<Rightarrow> message_row" where
  "messageRow rowid d flag h =
     \<lparr>m_ROWID = rowid, m_guid = None, m_text = None, m_date = d, m_date_read = None,
      m_is_from_me = flag, m_handle_id = h\<rparr>"

definition store :: "message_row list \<Rightarrow> handle_row list \<Rightarrow> database_file" where
  "store ms hs =
     Database \<lparr>message_table = Some ms, handle_table = Some hs,
               chat_message_join_table = Some [], chat_table = Some []\<rparr>"

definition utc :: environment where
  "utc = \<lparr>localOffset = (\<lambda>t. 0), wasmError = None\<rparr>"

definition twoMessageStore :: database_file where
  "twoMessageStore =
     store [messageRow 1 (Some 0) (Some 1) (Some 1), messageRow 2 (Some 3600000000000) (Some 0) (Some 1)]
           [\<lparr>h_ROWID = 1, h_id = ''+15551234567''\<rparr>]"

text \<open>A database file without tables; a store whose two messages have the flags NULL and 2;
  a store with a handle that has no message; a store with a message without date; 101
  messages without handle.\<close>

definition emptyDatabase :: database_file where
  "emptyDatabase =
     Database \<lparr>message_table = None, handle_table = None,
               chat_message_join_table = None, chat_table = None\<rparr>"

definition oddFlagStore :: database_file where
  "oddFlagStore =
     store [messageRow 1 (Some 0) None (Some 1), messageRow 2 (Some 3600000000000) (Some 2) (Some 1)]
           [\<lparr>h_ROWID = 1, h_id = ''+15551234567''\<rparr>]"

definition idleHandleStore :: database_file where
  "idleHandleStore =
     store [messageRow 1 (Some 0) (Some 2) (Some 2)]
           [\<lparr>h_ROWID = 1, h_id = ''+15551230001''\<rparr>, \<lparr>h_ROWID = 2, h_id = ''+15551230002''\<rparr>]"



section \<open>Lemmas about the directory builder\<close>



lemma storePhone_eq:
  "storePhone name tel m = (\<lambda>k. if k \<in> set (phoneKeys tel) then Some name else m k)"
  by (rule ext) (auto simp: storePhone_def phoneKeys_def Let_def)

lemma fold_storePhone_eq:
  "fold (storePhone name) tels m =
     (\<lambda>k. if k \<in> set (concat (map phoneKeys tels)) then Some name else m k)"
proof (induction tels arbitrary: m)
  case Nil
  show ?case by simp
next
  case (Cons tel tels)
  show ?case
    unfolding fold_Cons comp_apply Cons.IH
    by (rule ext) (simp add: storePhone_eq)
qed

lemma processContact_eq:
  "processContact contact m =
     (\<lambda>k. if k \<in> set (contactKeys contact) then Some (deriveName contact) else m k)"
  by (simp add: processContact_def contactKeys_def Let_def fold_storePhone_eq)

lemma fold_processContact_other:
  "\<forall>c \<in> set cs. k \<notin> set (contactKeys c) \<Longrightarrow> fold processContact cs m k = m k"
  by (induction cs arbitrary: m) (simp_all add: processContact_eq)

lemma fold_processContact_last:
  assumes "k \<in> set (contactKeys c)" and "\<forall>c' \<in> set cs2. k \<notin> set (contactKeys c')"
  shows "fold processContact (cs1 @ c # cs2) m k = Some (deriveName c)"
  using assms by (simp add: fold_processContact_other processContact_eq)

lemma dom_fold_processContact:
  "dom (fold processContact cs m) = dom m \<union> (\<Union>c \<in> set cs. set (contactKeys c))"
  by (induction cs arbitrary: m) (auto simp: processContact_eq dom_def split: if_splits)

lemma phoneKeys_digits:
  "k \<in> set (phoneKeys tel) \<Longrightarrow> 10 \<le> length k \<and> list_all isDigit k"
  by (auto simp: phoneKeys_def Let_def sliceLast_def normalizePhoneNumber_def list_all_iff
      split: if_splits dest: in_set_dropD)

lemma phoneKeys_suffix:
  "k \<in> set (phoneKeys tel) \<Longrightarrow> length k = 11 \<Longrightarrow> take 1 k = ''1'' \<Longrightarrow>
   drop 1 k \<in> set (phoneKeys tel)"
  by (auto simp: phoneKeys_def Let_def sliceLast_def split: if_splits)





lemma fnMatch_first_occurrence:
  assumes "fnMatch (pre @ [a]) = None" and "ciEq (CHR ''F'') a" and "ciEq (CHR ''N'') b"
  shows "fnMatch (pre @ a # b # rest) = Some (restOfLine (skipSeparator rest))"
  using assms
proof (induction pre)
  case Nil
  then show ?case by simp
next
  case (Cons x pre)
  note prems = Cons.prems and IH = Cons.IH
  show ?case
  proof (cases pre)
    case Nil
    from prems(1) have "\<not> (ciEq (CHR ''F'') x \<and> ciEq (CHR ''N'') a)"
      unfolding Nil by (simp split: if_splits)
    with prems(2,3) show ?thesis unfolding Nil by auto
  next
    case (Cons y ys)
    from prems(1) have n: "\<not> (ciEq (CHR ''F'') x \<and> ciEq (CHR ''N'') y)"
      and r: "fnMatch (pre @ [a]) = None"
      unfolding Cons by (simp_all split: if_splits)
    from IH [OF r prems(2,3)] n show ?thesis unfolding Cons by auto
  qed
qed

lemma deriveName_FN:
  "fnMatch c = Some v \<Longrightarrow> unescape (trim v) \<noteq> [] \<Longrightarrow> deriveName c = unescape (trim v)"
  by (simp add: deriveName_def)

lemma deriveName_N:
  "fnMatch c = None \<or> (\<exists>v. fnMatch c = Some v \<and> unescape (trim v) = []) \<Longrightarrow> nMatch c = Some w \<Longrightarrow> deriveName c = nameFromN w"
  by (auto simp add: deriveName_def)

lemma deriveName_none:
  "fnMatch c = None \<Longrightarrow> nMatch c = None \<Longrightarrow> deriveName c = [] \<and> processContact c m = m"
  by (auto simp add: deriveName_def processContact_def)

lemma dropWhile_id: "xs = [] \<or> \<not> P (hd xs) \<Longrightarrow> dropWhile P xs = xs"
  by (cases xs) auto

lemma trim_id: "trimmed t \<Longrightarrow> trim t = t"
  unfolding trimmed_def trim_def
  by (cases "t = []") (simp_all add: dropWhile_id hd_rev)

lemma last_dropWhile: "dropWhile P xs \<noteq> [] \<Longrightarrow> last (dropWhile P xs) = last xs"
  by (induction xs) (auto split: if_splits)

lemma trimmed_trim: "trimmed (trim s)"
proof (cases "trim s = []")
  case True
  then show ?thesis by (simp add: trimmed_def)
next
  case False
  define u where "u = dropWhile isWhiteSpace s"
  define d where "d = dropWhile isWhiteSpace (rev u)"
  have t: "trim s = rev d" by (simp add: trim_def u_def d_def)
  with False have d: "d \<noteq> []" by simp
  then have u: "u \<noteq> []" by (auto simp: d_def)
  have "\<not> isWhiteSpace (hd d)" using d unfolding d_def by (rule hd_dropWhile)
  then have 1: "\<not> isWhiteSpace (last (rev d))" using d by (simp add: last_rev)
  have "last d = last (rev u)" using d unfolding d_def by (rule last_dropWhile)
  then have "hd (rev d) = hd u" using d u by (simp add: hd_rev last_rev)
  moreover have "\<not> isWhiteSpace (hd u)" using u unfolding u_def by (rule hd_dropWhile)
  ultimately have 2: "\<not> isWhiteSpace (hd (rev d))" by simp
  from 1 2 show ?thesis by (simp add: trimmed_def t)
qed

lemma trim_trim: "trim (trim s) = trim s"
  by (rule trim_id) (rule trimmed_trim)

lemma trimmed_join:
  assumes "trimmed q" "trimmed p" "q \<noteq> []" "p \<noteq> []"
  shows "trimmed (q @ '' '' @ p)"
  using assms by (simp add: trimmed_def)

lemma components_trimmed: "p \<in> set (components w) \<Longrightarrow> trimmed p"
  by (auto simp: components_def trimmed_trim)

lemma nameFromN_parts:
  "nameFromN w = (case filter (\<lambda>p. p \<noteq> []) (components w) of
       [] \<Rightarrow> [] | [p] \<Rightarrow> p | p # q # r \<Rightarrow> q @ '' '' @ p)"
proof (cases "filter (\<lambda>p. p \<noteq> []) (components w)")
  case Nil
  then show ?thesis by (simp add: nameFromN_def components_def[symmetric])
next
  case (Cons p ps)
  note outer = Cons
  have "p \<in> set (filter (\<lambda>p. p \<noteq> []) (components w))" by (simp add: Cons)
  then have p: "p \<noteq> []" "trimmed p" by (auto intro: components_trimmed)
  show ?thesis
  proof (cases ps)
    case Nil
    with outer p show ?thesis
      by (simp add: nameFromN_def components_def[symmetric] Let_def nthOrEmpty_def trim_id)
  next
    case (Cons q r)
    have "q \<in> set (filter (\<lambda>p. p \<noteq> []) (components w))" by (simp add: outer Cons)
    then have q: "q \<noteq> []" "trimmed q" by (auto intro: components_trimmed)
    have "trim (q @ '' '' @ p) = q @ '' '' @ p"
      using p q by (intro trim_id trimmed_join)
    with outer Cons p q show ?thesis
      by (simp add: nameFromN_def components_def[symmetric] Let_def nthOrEmpty_def)
  qed
qed



lemma contactKeys_suffix:
  "k \<in> set (contactKeys c) \<Longrightarrow> length k = 11 \<Longrightarrow> take 1 k = ''1'' \<Longrightarrow>
   drop 1 k \<in> set (contactKeys c)"
proof -
  assume k: "k \<in> set (contactKeys c)" and l: "length k = 11" "take 1 k = ''1''"
  from k have ne: "\<not> (trim c = [] \<or> deriveName c = [])"
    by (auto simp: contactKeys_def split: if_splits)
  with k obtain tel where tel: "tel \<in> set (telMatches c)" "k \<in> set (phoneKeys tel)"
    by (auto simp: contactKeys_def)
  from tel(2) l have "drop 1 k \<in> set (phoneKeys tel)" by (rule phoneKeys_suffix)
  with tel(1) ne show ?thesis by (auto simp: contactKeys_def)
qed

lemma contactKeys_digits:
  "k \<in> set (contactKeys c) \<Longrightarrow> 10 \<le> length k \<and> list_all isDigit k"
  by (auto simp: contactKeys_def split: if_splits dest: phoneKeys_digits)

lemma dom_parseVCard:
  "dom (parseVCard text) = (\<Union>c \<in> set (splitContacts text). set (contactKeys c))"
  by (simp add: parseVCard_def dom_fold_processContact)

subsection \<open>Lines\<close>

lemma splitBy_LF_line:
  "LF \<notin> set x \<Longrightarrow> splitBy (=) [LF] acc (x @ LF # y) = (rev acc @ x) # splitBy (=) [LF] [] y"
  by (induction x arbitrary: acc) auto

lemma splitBy_LF_last:
  "LF \<notin> set x \<Longrightarrow> splitBy (=) [LF] acc x = [rev acc @ x]"
  by (induction x arbitrary: acc) auto

lemma linesOf_Cons: "LF \<notin> set x \<Longrightarrow> linesOf (x @ LF # y) = x # linesOf y"
  by (simp add: linesOf_def splitBy_LF_line)

lemma linesOf_single: "LF \<notin> set x \<Longrightarrow> linesOf x = [x]"
  by (simp add: linesOf_def splitBy_LF_last)

lemma line_cases:
  obtains (single) "LF \<notin> set c"
  | (more) x y where "c = x @ LF # y" "LF \<notin> set x"
proof (cases "LF \<in> set c")
  case False
  then show ?thesis by (rule single)
next
  case True
  then obtain x y where "c = x @ LF # y" "LF \<notin> set x"
    by (auto dest: split_list_first)
  then show ?thesis by (rule more)
qed

lemma restOfLine_line: "LF \<notin> set v \<Longrightarrow> restOfLine (v @ LF # y) = v"
  by (induction v) (auto simp: restOfLine_def)

lemma restOfLine_last: "LF \<notin> set v \<Longrightarrow> restOfLine v = v"
  by (induction v) (auto simp: restOfLine_def)

subsection \<open>Where the full-name match is\<close>

lemma fnMatch_None_iff: "fnMatch c = None \<longleftrightarrow> \<not> containsCI ''FN'' c"
  by (induction c rule: fnMatch.induct) auto

lemma containsCI_append: "containsCI ''FN'' x \<Longrightarrow> containsCI ''FN'' (x @ y)"
  by (induction x rule: fnMatch.induct) auto

lemma ciEq_not_LF: "\<not> ciEq (CHR ''F'') LF" "\<not> ciEq (CHR ''N'') LF"
  by code_simp+

lemma fnMatch_skip_line:
  "\<not> containsCI ''FN'' x \<Longrightarrow> fnMatch (x @ LF # y) = fnMatch y"
proof (induction x)
  case Nil
  show ?case by (cases y) (simp_all add: ciEq_not_LF)
next
  case (Cons a xs)
  then have IH: "fnMatch (xs @ LF # y) = fnMatch y" by simp
  show ?case
  proof (cases xs)
    case Nil
    with IH show ?thesis by (simp add: ciEq_not_LF)
  next
    case (Cons b xs')
    with Cons.prems have "\<not> (ciEq (CHR ''F'') a \<and> ciEq (CHR ''N'') b)" by simp
    with IH Cons show ?thesis by auto
  qed
qed

lemma fnMatch_field:
  assumes "ciEq (CHR ''F'') f" "ciEq (CHR ''N'') n" "LF \<notin> set v"
  shows "fnMatch (f # n # CHR '':'' # v @ LF # y) = Some v"
    and "fnMatch (f # n # CHR '':'' # v) = Some v"
  using assms by (simp_all add: restOfLine_line restOfLine_last)

lemma find_lines_Cons:
  "LF \<notin> set x \<Longrightarrow> firstLineWith P (x @ LF # y) = (if P x then Some x else firstLineWith P y)"
  by (simp add: firstLineWith_def linesOf_Cons)

lemma find_lines_single:
  "LF \<notin> set x \<Longrightarrow> firstLineWith P x = (if P x then Some x else None)"
  by (simp add: firstLineWith_def linesOf_single)

lemma fullNameValue_fnMatch:
  "fullNameValue c = Some v \<Longrightarrow> fnMatch c = Some v"
proof (induction c rule: length_induct)
  case (1 c)
  show ?case
  proof (cases c rule: line_cases)
    case single
    with "1.prems" obtain f n where c: "c = f # n # CHR '':'' # v"
      and fn: "ciEq (CHR ''F'') f" "ciEq (CHR ''N'') n"
      by (auto simp: fullNameValue_def find_lines_single split: if_splits list.splits)
    from single c have "LF \<notin> set v" by simp
    with fn show ?thesis unfolding c by (rule fnMatch_field(2))
  next
    case (more x y)
    show ?thesis
    proof (cases "containsCI ''FN'' x")
      case True
      with more "1.prems" obtain f n where "x = f # n # CHR '':'' # v"
        "ciEq (CHR ''F'') f" "ciEq (CHR ''N'') n"
        by (auto simp: fullNameValue_def find_lines_Cons split: if_splits list.splits)
      with more show ?thesis by (simp add: restOfLine_line)
    next
      case False
      with more "1.prems" have "fullNameValue y = Some v"
        by (simp add: fullNameValue_def find_lines_Cons)
      moreover from more have "length y < length c" by simp
      ultimately have "fnMatch y = Some v" using "1.IH" by blast
      with False more show ?thesis by (simp add: fnMatch_skip_line)
    qed
  qed
qed

subsection \<open>Where the structured-name match is\<close>

lemma nMatchFrom_inside_line:
  "LF \<notin> set x \<Longrightarrow> CR \<notin> set x \<Longrightarrow>
   nMatchFrom False (x @ LF # y) = nMatchFrom True y \<and> nMatchFrom False x = None"
  by (induction x) auto

lemma nMatch_skip_line:
  assumes "LF \<notin> set x" "CR \<notin> set x" "\<not> startsWithBy ciEq ''N'' x"
  shows "nMatch (x @ LF # y) = nMatch y" and "nMatch x = None"
proof -
  show "nMatch (x @ LF # y) = nMatch y"
  proof (cases x)
    case Nil
    then show ?thesis by (simp add: nMatch_def ciEq_not_LF)
  next
    case (Cons a xs)
    with assms nMatchFrom_inside_line [of xs y] show ?thesis
      by (auto simp: nMatch_def)
  qed
  show "nMatch x = None"
  proof (cases x)
    case Nil
    then show ?thesis by (simp add: nMatch_def)
  next
    case (Cons a xs)
    with assms nMatchFrom_inside_line [of xs y] show ?thesis
      by (auto simp: nMatch_def)
  qed
qed

lemma restOfLine_skipSeparator_line:
  "LF \<notin> set xs \<Longrightarrow> restOfLine (skipSeparator (xs @ LF # y)) = skipSeparator xs"
proof (cases xs)
  case Nil
  then show ?thesis by (simp add: restOfLine_def)
next
  case (Cons a as)
  assume "LF \<notin> set xs"
  with Cons have "LF \<notin> set as" "LF \<notin> set (a # as)" by simp_all
  from restOfLine_line [OF this(1), of y] restOfLine_line [OF this(2), of y] Cons
  show ?thesis by simp
qed

lemma restOfLine_skipSeparator_last:
  "LF \<notin> set xs \<Longrightarrow> restOfLine (skipSeparator xs) = skipSeparator xs"
proof (cases xs)
  case Nil
  then show ?thesis by (simp add: restOfLine_def)
next
  case (Cons a as)
  assume "LF \<notin> set xs"
  with Cons have "LF \<notin> set as" "LF \<notin> set (a # as)" by simp_all
  from restOfLine_last [OF this(1)] restOfLine_last [OF this(2)] Cons
  show ?thesis by simp
qed

lemma nMatch_lines:
  "CR \<notin> set c \<Longrightarrow>
   nMatch c = map_option (\<lambda>l. skipSeparator (tl l)) (firstLineWith (startsWithBy ciEq ''N'') c)"
proof (induction c rule: length_induct)
  case (1 c)
  show ?case
  proof (cases c rule: line_cases)
    case single
    show ?thesis
    proof (cases "startsWithBy ciEq ''N'' c")
      case True
      then obtain n xs where c: "c = n # xs" "ciEq (CHR ''N'') n" by (cases c) auto
      with single have "nMatch c = Some (skipSeparator xs)"
        by (simp add: nMatch_def restOfLine_skipSeparator_last)
      moreover from single True have "firstLineWith (startsWithBy ciEq ''N'') c = Some c"
        by (simp add: find_lines_single)
      ultimately show ?thesis using c by simp
    next
      case False
      with single "1.prems" show ?thesis by (simp add: find_lines_single nMatch_skip_line)
    qed
  next
    case (more x y)
    show ?thesis
    proof (cases "startsWithBy ciEq ''N'' x")
      case True
      then obtain n xs where x: "x = n # xs" "ciEq (CHR ''N'') n" by (cases x) auto
      with more have "nMatch c = Some (skipSeparator xs)"
        by (simp add: nMatch_def restOfLine_skipSeparator_line)
      moreover from more True have "firstLineWith (startsWithBy ciEq ''N'') c = Some x"
        by (simp add: find_lines_Cons)
      ultimately show ?thesis using x by simp
    next
      case False
      from more have "length y < length c" by simp
      moreover from more "1.prems" have "CR \<notin> set y" by simp
      ultimately have "nMatch y
          = map_option (\<lambda>l. skipSeparator (tl l)) (firstLineWith (startsWithBy ciEq ''N'') y)"
        using "1.IH" by blast
      with False more "1.prems" show ?thesis by (simp add: nMatch_skip_line find_lines_Cons)
    qed
  qed
qed

lemma structuredNameValue_nMatch:
  "CR \<notin> set c \<Longrightarrow> structuredNameValue c = Some w \<Longrightarrow> nMatch c = Some w"
  by (auto simp: nMatch_lines structuredNameValue_def split: option.splits list.splits if_splits)

lemma no_N_line_nMatch:
  "CR \<notin> set c \<Longrightarrow> firstLineWith (startsWithBy ciEq ''N'') c = None \<Longrightarrow> nMatch c = None"
  by (simp add: nMatch_lines)

subsection \<open>No carriage return is left in a record\<close>

lemma replaceAll_CR: "CR \<notin> set (replaceAll [CR] [LF] s)"
  by (induction s) auto

lemma set_removeContinuations: "set (removeContinuations s) \<subseteq> set s"
  by (induction s rule: removeContinuations.induct) auto

lemma set_splitBy:
  "p \<in> set (splitBy eq sep acc s) \<Longrightarrow> set p \<subseteq> set acc \<union> set s"
proof (induction eq sep acc s rule: splitBy.induct)
  case (1 eq sep acc)
  then show ?case by auto
next
  case (2 eq sep acc c cs)
  show ?case
  proof (cases "sep \<noteq> [] \<and> startsWithBy eq sep (c # cs)")
    case True
    with "2.prems" have "p = rev acc \<or> p \<in> set (splitBy eq sep [] (drop (length sep - 1) cs))"
      by auto
    then show ?thesis
    proof
      assume "p = rev acc"
      then show ?thesis by auto
    next
      assume "p \<in> set (splitBy eq sep [] (drop (length sep - 1) cs))"
      with True "2.IH"(1) have "set p \<subseteq> set [] \<union> set (drop (length sep - 1) cs)" by blast
      also have "\<dots> \<subseteq> set cs" by (simp add: set_drop_subset)
      finally show ?thesis by auto
    qed
  next
    case False
    with "2.prems" have "p \<in> set (splitBy eq sep (c # acc) cs)" by auto
    with False "2.IH"(2) have "set p \<subseteq> set (c # acc) \<union> set cs" by blast
    then show ?thesis by auto
  qed
qed

lemma splitContacts_no_CR: "c \<in> set (splitContacts text) \<Longrightarrow> CR \<notin> set c"
proof -
  assume "c \<in> set (splitContacts text)"
  then have "set c \<subseteq> set [] \<union> set (normalizeLines text)"
    unfolding splitContacts_def by (rule set_splitBy)
  then have "set c \<subseteq> set (normalizeLines text)" by simp
  also have "\<dots> \<subseteq> set (replaceAll [CR] [LF] (replaceAll [CR, LF] [LF] text))"
    unfolding normalizeLines_def by (rule set_removeContinuations)
  finally show ?thesis using replaceAll_CR by blast
qed

section \<open>Lemmas about the queries\<close>

subsection \<open>ORDER BY\<close>

lemma mset_insertBy: "mset (insertBy le x xs) = add_mset x (mset xs)"
  by (induction xs) simp_all

lemma mset_orderBy: "mset (orderBy le xs) = mset xs"
  unfolding orderBy_def by (induction xs) (simp_all add: mset_insertBy)

lemma set_orderBy: "set (orderBy le xs) = set xs"
  by (rule mset_eq_setD) (rule mset_orderBy)


lemma distinct_orderBy: "distinct (orderBy le xs) = distinct xs"
  by (rule mset_eq_imp_distinct_iff) (rule mset_orderBy)

lemma sum_list_orderBy: "sum_list (map f (orderBy le xs)) = sum_list (map (f :: 'a \<Rightarrow> nat) xs)"
proof -
  have "sum_mset (image_mset f (mset (orderBy le xs))) = sum_mset (image_mset f (mset xs))"
    by (simp add: mset_orderBy)
  then show ?thesis by (simp add: sum_mset_sum_list flip: mset_map)
qed

lemma length_filter_orderBy: "length (filter P (orderBy le xs)) = length (filter P xs)"
proof -
  have "size (filter_mset P (mset (orderBy le xs))) = size (filter_mset P (mset xs))"
    by (simp add: mset_orderBy)
  then show ?thesis by (simp flip: mset_filter)
qed








subsection \<open>GROUP BY\<close>

lemma length_filter_key: "length (filter (\<lambda>r. key r = k) rows) = count_list (map key rows) k"
  by (induction rows) simp_all

lemma sum_group_sizes:
  "sum_list (map (\<lambda>kg. length (snd kg)) (groupBy key rows)) = length rows"
proof -
  have "sum_list (map (\<lambda>kg. length (snd kg)) (groupBy key rows))
      = sum_list (map (count_list (map key rows)) (remdups (map key rows)))"
    by (simp add: groupBy_def comp_def length_filter_key)
  also have "\<dots> = sum (count_list (map key rows)) (set (map key rows))"
    by (simp add: sum_list_distinct_conv_sum_set)
  also have "\<dots> = length (map key rows)"
    by (rule sum_count_set) simp_all
  finally show ?thesis by simp
qed

lemma distinct_groupBy_keys: "distinct (map fst (groupBy key rows))"
  by (simp add: groupBy_def comp_def)

lemma groupBy_member:
  "(k, g) \<in> set (groupBy key rows) \<Longrightarrow> g = filter (\<lambda>r. key r = k) rows \<and> k \<in> key ` set rows"
  by (auto simp: groupBy_def)

subsection \<open>LEFT JOIN\<close>

lemma length_leftJoin_matches:
  "length (filter (\<lambda>x. x \<noteq> None) (leftJoin on rows)) = length (filter on rows)"
  by (simp add: leftJoin_def filter_map comp_def)

lemma leftJoin_single:
  "length (filter on rows) \<le> 1 \<Longrightarrow> \<exists>x. leftJoin on rows = [x]"
  by (cases "filter on rows") (auto simp: leftJoin_def)

lemma leftJoin_nonempty_matches:
  "filter on rows \<noteq> [] \<Longrightarrow> leftJoin on rows = map Some (filter on rows)"
  by (simp add: leftJoin_def)

lemma distinct_filter_le1:
  "distinct (map f xs) \<Longrightarrow> length (filter (\<lambda>x. f x = v) xs) \<le> 1"
proof (induction xs)
  case Nil
  show ?case by simp
next
  case (Cons x xs)
  show ?case
  proof (cases "f x = v")
    case True
    with Cons.prems have "filter (\<lambda>x. f x = v) xs = []"
      by (auto simp: filter_empty_conv image_iff)
    with True show ?thesis by simp
  next
    case False
    with Cons show ?thesis by simp
  qed
qed

subsection \<open>The per-handle summary\<close>

lemma contactsRows_member:
  "c \<in> set (contactsRows ms hs) \<Longrightarrow>
   \<exists>k g. (k, g) \<in> set (groupBy (\<lambda>hm. (h_ROWID (fst hm), h_id (fst hm))) (contactJoin ms hs))
      \<and> c = contactResult (k, g)"
  by (auto simp: contactsRows_def set_orderBy)

lemma contactJoin_member:
  "hm \<in> set (contactJoin ms hs) \<Longrightarrow>
   fst hm \<in> set hs \<and> snd hm \<in> set (leftJoin (\<lambda>m. m_handle_id m = Some (h_ROWID (fst hm))) ms)"
  by (auto simp: contactJoin_def)

lemma length_filter_two_values:
  "(\<And>x. x \<in> set g \<Longrightarrow> F x = a \<or> F x = b) \<Longrightarrow> a \<noteq> b \<Longrightarrow>
   length (filter (\<lambda>x. F x = a) g) + length (filter (\<lambda>x. F x = b) g) = length g"
  by (induction g) auto

lemma contact_row_balance:
  assumes c: "c \<in> set (contactsRows ms hs)"
    and some: "\<exists>m \<in> set ms. m_handle_id m = Some (cr_ROWID c)"
    and flags: "\<forall>m \<in> set ms. m_handle_id m = Some (cr_ROWID c) \<longrightarrow>
                  m_is_from_me m = Some 0 \<or> m_is_from_me m = Some 1"
  shows "cr_received_count c + cr_sent_count c = cr_message_count c"
proof -
  from c obtain k g where kg:
    "(k, g) \<in> set (groupBy (\<lambda>hm. (h_ROWID (fst hm), h_id (fst hm))) (contactJoin ms hs))"
    and cr: "c = contactResult (k, g)"
    using contactsRows_member by blast
  from kg have g: "g = filter (\<lambda>hm. (h_ROWID (fst hm), h_id (fst hm)) = k) (contactJoin ms hs)"
    by (simp add: groupBy_member)
  from cr have rowid: "cr_ROWID c = fst k" by (simp add: contactResult_def)
  have each: "joinedFlag (snd hm) = Some 0 \<or> joinedFlag (snd hm) = Some 1" if "hm \<in> set g" for hm
  proof -
    from that g have j: "hm \<in> set (contactJoin ms hs)" and h: "h_ROWID (fst hm) = fst k"
      by auto
    from some rowid h
    have ne: "filter (\<lambda>m. m_handle_id m = Some (h_ROWID (fst hm))) ms \<noteq> []"
      by (auto simp: filter_empty_conv)
    from contactJoin_member [OF j]
    have "snd hm \<in> set (leftJoin (\<lambda>m. m_handle_id m = Some (h_ROWID (fst hm))) ms)" by simp
    with ne obtain m where m: "snd hm = Some m" "m \<in> set ms"
      "m_handle_id m = Some (h_ROWID (fst hm))"
      by (auto simp: leftJoin_nonempty_matches)
    with flags rowid h have "m_is_from_me m = Some 0 \<or> m_is_from_me m = Some 1" by simp
    with m(1) show ?thesis by (simp add: joinedFlag_def)
  qed
  have "length (filter (\<lambda>hm. joinedFlag (snd hm) = Some 0) g)
        + length (filter (\<lambda>hm. joinedFlag (snd hm) = Some 1) g) = length g"
    by (rule length_filter_two_values) (use each in auto)
  with cr show ?thesis by (simp add: contactResult_def)
qed

lemma distinct_map_of_comp: "distinct (map (\<lambda>x. h (f x)) xs) \<Longrightarrow> distinct (map f xs)"
  by (induction xs) auto

lemma distinct_contact_results:
  "distinct (map contactResult (groupBy key rows))"
proof (rule distinct_map_of_comp [where h = "\<lambda>c. (cr_ROWID c, cr_phone_number c)"])
  have "(\<lambda>x. (cr_ROWID (contactResult x), cr_phone_number (contactResult x)))
        = (fst :: (int \<times> string) \<times> (handle_row \<times> message_row option) list \<Rightarrow> int \<times> string)"
    by (rule ext) (simp add: contactResult_def)
  then show "distinct (map (\<lambda>x. (cr_ROWID (contactResult x), cr_phone_number (contactResult x)))
                (groupBy key rows))"
    by (simp only: distinct_groupBy_keys)
qed

lemma sum_message_count:
  "sum_list (map cr_message_count (contactsRows ms hs)) = length (contactJoin ms hs)"
proof -
  let ?groups = "groupBy (\<lambda>hm. (h_ROWID (fst hm), h_id (fst hm))) (contactJoin ms hs)"
  have "sum_list (map cr_message_count (contactsRows ms hs))
        = sum_list (map cr_message_count (map contactResult ?groups))"
    by (simp add: contactsRows_def sum_list_orderBy
        distinct_remdups_id [OF distinct_contact_results])
  also have "\<dots> = sum_list (map (\<lambda>kg. length (snd kg)) ?groups)"
    by (simp add: comp_def contactResult_def)
  also have "\<dots> = length (contactJoin ms hs)" by (rule sum_group_sizes)
  finally show ?thesis .
qed

lemma length_contactJoin:
  assumes "\<forall>h \<in> set hs. \<exists>m \<in> set ms. m_handle_id m = Some (h_ROWID h)"
  shows "length (contactJoin ms hs)
         = sum_list (map (\<lambda>h. length (filter (\<lambda>m. m_handle_id m = Some (h_ROWID h)) ms)) hs)"
proof -
  have "length (leftJoin (\<lambda>m. m_handle_id m = Some (h_ROWID h)) ms)
        = length (filter (\<lambda>m. m_handle_id m = Some (h_ROWID h)) ms)" if "h \<in> set hs" for h
  proof -
    from that assms have "filter (\<lambda>m. m_handle_id m = Some (h_ROWID h)) ms \<noteq> []"
      by (auto simp: filter_empty_conv)
    then show ?thesis by (simp add: leftJoin_nonempty_matches)
  qed
  then have a: "sum_list (map (\<lambda>h. length (leftJoin (\<lambda>m. m_handle_id m = Some (h_ROWID h)) ms)) hs)
           = sum_list (map (\<lambda>h. length (filter (\<lambda>m. m_handle_id m = Some (h_ROWID h)) ms)) hs)"
    by (intro arg_cong [where f = sum_list] map_cong) simp_all
  have b: "length (contactJoin ms hs)
           = sum_list (map (\<lambda>h. length (leftJoin (\<lambda>m. m_handle_id m = Some (h_ROWID h)) ms)) hs)"
    by (simp add: contactJoin_def length_concat comp_def)
  from b a show ?thesis by (rule trans)
qed

subsection \<open>The all-messages result\<close>

lemma onChat_le1:
  "distinct (map c_ROWID cs) \<Longrightarrow> length (filter (onChat j) cs) \<le> 1"
proof (cases j)
  case None
  then show ?thesis by (simp add: onChat_def)
next
  case (Some cmj)
  assume d: "distinct (map c_ROWID cs)"
  show ?thesis
  proof (cases "cmj_chat_id cmj")
    case None
    with Some show ?thesis by (simp add: onChat_def)
  next
    case (Some v)
    have "filter (onChat j) cs = filter (\<lambda>c. c_ROWID c = v) cs"
      using \<open>j = Some cmj\<close> Some by (auto simp: onChat_def intro: filter_cong)
    with distinct_filter_le1 [OF d, of v] show ?thesis by simp
  qed
qed

lemma messageJoin_with_handle:
  assumes "length (filter (\<lambda>j. cmj_message_id j = Some (m_ROWID m)) js) \<le> 1"
    and "distinct (map c_ROWID cs)"
  shows "length (filter (\<lambda>r. r_phone_number r \<noteq> None) (messageJoin tz hs js cs m))
         = length (filter (\<lambda>h. m_handle_id m = Some (h_ROWID h)) hs)"
proof -
  from assms(1) obtain j where j: "leftJoin (\<lambda>j. cmj_message_id j = Some (m_ROWID m)) js = [j]"
    using leftJoin_single by blast
  from onChat_le1 [OF assms(2)] obtain c where c: "leftJoin (onChat j) cs = [c]"
    using leftJoin_single by blast
  have "messageJoin tz hs js cs m
        = map (\<lambda>h. messageResult tz m h c) (leftJoin (\<lambda>h. m_handle_id m = Some (h_ROWID h)) hs)"
    by (simp add: messageJoin_def j c)
  then have "filter (\<lambda>r. r_phone_number r \<noteq> None) (messageJoin tz hs js cs m)
        = map (\<lambda>h. messageResult tz m h c)
            (filter (\<lambda>h. h \<noteq> None) (leftJoin (\<lambda>h. m_handle_id m = Some (h_ROWID h)) hs))"
    by (simp add: filter_map comp_def messageResult_def del: not_None_eq)
  then show ?thesis by (simp add: length_leftJoin_matches del: not_None_eq)
qed

lemma sum_filter_swap:
  "sum_list (map (\<lambda>h. length (filter (\<lambda>m. P m h) ms)) hs)
   = sum_list (map (\<lambda>m. length (filter (\<lambda>h. P m h) hs)) ms)"
proof (induction hs)
  case Nil
  show ?case by simp
next
  case (Cons h hs)
  have "sum_list (map (\<lambda>m. length (filter (\<lambda>h. P m h) (h # hs))) ms)
        = length (filter (\<lambda>m. P m h) ms) + sum_list (map (\<lambda>m. length (filter (\<lambda>h. P m h) hs)) ms)"
    by (induction ms) simp_all
  with Cons show ?case by simp
qed

lemma messages_with_handle:
  assumes "\<forall>m \<in> set ms. length (filter (\<lambda>j. cmj_message_id j = Some (m_ROWID m)) js) \<le> 1"
    and "distinct (map c_ROWID cs)"
  shows "length (filter (\<lambda>r. r_phone_number r \<noteq> None) (messagesRows tz ms hs js cs))
         = sum_list (map (\<lambda>m. length (filter (\<lambda>h. m_handle_id m = Some (h_ROWID h)) hs)) ms)"
proof -
  have a: "sum_list (map (\<lambda>m. length (filter (\<lambda>r. r_phone_number r \<noteq> None)
                                     (messageJoin tz hs js cs m))) ms)
        = sum_list (map (\<lambda>m. length (filter (\<lambda>h. m_handle_id m = Some (h_ROWID h)) hs)) ms)"
  proof (intro arg_cong [where f = sum_list] map_cong refl)
    fix m assume "m \<in> set ms"
    with assms(1) have "length (filter (\<lambda>j. cmj_message_id j = Some (m_ROWID m)) js) \<le> 1"
      by blast
    then show "length (filter (\<lambda>r. r_phone_number r \<noteq> None) (messageJoin tz hs js cs m))
        = length (filter (\<lambda>h. m_handle_id m = Some (h_ROWID h)) hs)"
      using assms(2) by (rule messageJoin_with_handle)
  qed
  have b: "length (filter (\<lambda>r. r_phone_number r \<noteq> None) (messagesRows tz ms hs js cs))
        = sum_list (map (\<lambda>m. length (filter (\<lambda>r. r_phone_number r \<noteq> None)
                                     (messageJoin tz hs js cs m))) ms)"
    by (simp add: messagesRows_def length_filter_orderBy filter_concat length_concat comp_def
        del: not_None_eq)
  from b a show ?thesis by (rule trans)
qed

lemma sum_counts_eq_messages:
  assumes "\<forall>h \<in> set hs. \<exists>m \<in> set ms. m_handle_id m = Some (h_ROWID h)"
    and "\<forall>m \<in> set ms. length (filter (\<lambda>j. cmj_message_id j = Some (m_ROWID m)) js) \<le> 1"
    and "distinct (map c_ROWID cs)"
  shows "sum_list (map cr_message_count (contactsRows ms hs))
         = length (filter (\<lambda>r. r_phone_number r \<noteq> None) (messagesRows tz ms hs js cs))"
proof -
  have "sum_list (map cr_message_count (contactsRows ms hs))
        = sum_list (map (\<lambda>h. length (filter (\<lambda>m. m_handle_id m = Some (h_ROWID h)) ms)) hs)"
    by (simp only: sum_message_count length_contactJoin [OF assms(1)])
  also have "\<dots> = sum_list (map (\<lambda>m. length (filter (\<lambda>h. m_handle_id m = Some (h_ROWID h)) hs)) ms)"
    by (rule sum_filter_swap)
  also have "\<dots> = length (filter (\<lambda>r. r_phone_number r \<noteq> None) (messagesRows tz ms hs js cs))"
    by (rule messages_with_handle [OF assms(2,3), symmetric])
  finally show ?thesis .
qed

lemma messagesRows_member:
  "r \<in> set (messagesRows tz ms hs js cs) \<Longrightarrow> \<exists>m \<in> set ms. \<exists>h c. r = messageResult tz m h c"
  by (auto simp: messagesRows_def set_orderBy messageJoin_def)

subsection \<open>Dates\<close>






subsection \<open>The handler\<close>

lemma POST_result:
  assumes "POST env req = (Json200 r, st)" and "req_file req = Some (Database db)"
    and "message_table db = Some ms" and "handle_table db = Some hs"
    and "chat_message_join_table db = Some js" and "chat_table db = Some cs"
  shows "r = assemble (loadContacts (req_contactsFile req))
               (messagesRows (localOffset env) ms hs js cs) (contactsRows ms hs)
               (dailyStatsRows (localOffset env) ms) (hourlyStatsRows (localOffset env) ms)
         \<and> st = Closed"
  using assms
  by (cases "wasmError env")
    (simp_all add: POST_def messagesQuery_def contactsQuery_def dailyStatsQuery_def
      hourlyStatsQuery_def)

lemma POST_store:
  "wasmError env = None \<Longrightarrow>
   POST env \<lparr>req_file = Some (store ms hs), req_contactsFile = cf\<rparr>
   = (Json200 (assemble (loadContacts cf)
               (messagesRows (localOffset env) ms hs [] []) (contactsRows ms hs)
               (dailyStatsRows (localOffset env) ms) (hourlyStatsRows (localOffset env) ms)), Closed)"
  by (simp add: POST_def store_def messagesQuery_def contactsQuery_def dailyStatsQuery_def
      hourlyStatsQuery_def)

lemma map_const_replicate:
  "list_all (\<lambda>x. f x = v) xs \<Longrightarrow> map f xs = replicate (length xs) v"
  by (induction xs) auto

section \<open>Phone Normalizer\<close>

text \<open>
  Claim C8. For every phone string \<open>x\<close>: normalizing twice is the same as normalizing once,
  the normalized key consists of decimal digits only, and the empty string normalizes to the
  empty key. \<open>normalizePhoneNumber\<close> is a function of its argument alone and has a value on
  every string: there is no failure case.
\<close>

theorem normalizePhoneNumber_idempotent_digits:
  "normalizePhoneNumber (normalizePhoneNumber x) = normalizePhoneNumber x
   \<and> list_all isDigit (normalizePhoneNumber x)
   \<and> normalizePhoneNumber [] = []"
  by (simp add: normalizePhoneNumber_def list_all_iff)

theorem normalizePhoneNumber_idempotent_digits_witness:
  "normalizePhoneNumber (normalizePhoneNumber ''+1 (555) 123-4567'') = ''15551234567''
   \<and> list_all isDigit (normalizePhoneNumber ''+1 (555) 123-4567'')"
  using normalizePhoneNumber_idempotent_digits [of "''+1 (555) 123-4567''"]
  by (simp add: normalizePhoneNumber_def isDigit_def)

section \<open>Contact Directory Builder\<close>

subsection \<open>Which record wins a key\<close>

text \<open>
  Claim C1, as the code has it. Every store into the directory is an unconditional
  \<^verbatim>\<open>phoneToName.set(key, name)\<close>: processing a record sets each key the record writes to the
  record's name and leaves every other key as it was. So the directory built from a text
  holds, for each key, the name of the last record that writes the key: a later record
  replaces the mapping of an earlier one.
\<close>

theorem parseVCard_last_writer_wins:
  "(splitContacts text = cs1 @ c # cs2 \<and> k \<in> set (contactKeys c)
      \<and> (\<forall>c' \<in> set cs2. k \<notin> set (contactKeys c'))
     \<longrightarrow> parseVCard text k = Some (deriveName c))
   \<and> processContact c m k = (if k \<in> set (contactKeys c) then Some (deriveName c) else m k)"
proof (intro conjI impI)
  assume a: "splitContacts text = cs1 @ c # cs2 \<and> k \<in> set (contactKeys c)
      \<and> (\<forall>c' \<in> set cs2. k \<notin> set (contactKeys c'))"
  then have "fold processContact (cs1 @ c # cs2) Map.empty k = Some (deriveName c)"
    by (intro fold_processContact_last) simp_all
  with a show "parseVCard text k = Some (deriveName c)"
    by (simp add: parseVCard_def)
next
  show "processContact c m k = (if k \<in> set (contactKeys c) then Some (deriveName c) else m k)"
    by (simp add: processContact_eq)
qed

text \<open>Two records, Alice then Bob, with the same telephone number: both write the key
  \<open>5551234567\<close>, and the directory holds Bob.\<close>

theorem parseVCard_last_writer_wins_witness:
  "parseVCard (aliceText @ bobText) ''5551234567'' = Some ''Bob''
   \<and> ''5551234567'' \<in> set (contactKeys (splitContacts (aliceText @ bobText) ! 1))
   \<and> ''5551234567'' \<in> set (contactKeys (splitContacts (aliceText @ bobText) ! 2))"
proof -
  define c1 where "c1 = ''\<newline>FN:Alice\<newline>TEL:555-123-4567\<newline>END:VCARD\<newline>''"
  define c2 where "c2 = ''\<newline>FN:Bob\<newline>TEL:(555) 123 4567\<newline>END:VCARD\<newline>''"
  have split: "splitContacts (aliceText @ bobText) = [[], c1] @ c2 # []"
    unfolding c1_def c2_def by code_simp
  have k1: "''5551234567'' \<in> set (contactKeys c1)" unfolding c1_def by code_simp
  have k2: "''5551234567'' \<in> set (contactKeys c2)" unfolding c2_def by code_simp
  have name: "deriveName c2 = ''Bob''" unfolding c2_def by code_simp
  have "parseVCard (aliceText @ bobText) ''5551234567'' = Some (deriveName c2)"
    using parseVCard_last_writer_wins [of "aliceText @ bobText" "[[], c1]" c2 "[]" "''5551234567''"]
      split k2 by simp
  with name split k1 k2 show ?thesis by simp
qed

text \<open>Against first-writer-wins: after Alice's record alone the key maps to Alice; with Bob's
  record after it, the same key maps to Bob.\<close>

theorem parseVCard_first_writer_counterexample:
  "parseVCard aliceText ''5551234567'' = Some ''Alice''
   \<and> parseVCard (aliceText @ bobText) ''5551234567'' = Some ''Bob''"
  by code_simp

subsection \<open>The display name of a record\<close>

text \<open>
  Claim C5. No record of an address-book text holds a carriage return, and the display name
  of a record \<open>c\<close> is found as follows.
  \<^item> Full name: when the first line of the record on which the letters FN occur (in either
    case) is written \<^verbatim>\<open>FN:value\<close>, and the value, trimmed and unescaped, is not empty, that
    is the name. Unescaping turns \<open>\,\<close> into a comma, \<open>\;\<close> into a semicolon, \<open>\n\<close> into a
    space and \<open>\\\<close> into a backslash.
  \<^item> Otherwise, that is when that value is empty or the letters FN occur nowhere in the
    record, the structured name: when the first line that starts with N is written
    \<^verbatim>\<open>N:value\<close>, the name is made from the components of the value (split on \<open>;\<close>,
    trimmed). When the family and given components (first and second) are both non-empty
    the name is "given family"; when exactly one component is non-empty the name is that
    component.
  \<^item> A record in which the letters FN occur nowhere and no line starts with N has no name
    and leaves the directory as it was.

  The hypotheses are stated on the lines of the record (\<open>fullNameValue\<close>,
  \<open>structuredNameValue\<close>, \<open>containsCI\<close>, \<open>firstLineWith\<close>), the conclusions on the code
  (\<open>deriveName\<close>, \<open>nameFromN\<close>, \<open>processContact\<close>).
\<close>

theorem deriveName_cases:
  "(c \<in> set (splitContacts text) \<longrightarrow> CR \<notin> set c)
   \<and> (fullNameValue c = Some v \<and> unescape (trim v) \<noteq> [] \<longrightarrow> deriveName c = unescape (trim v))
   \<and> (fullNameValue c = Some v \<and> unescape (trim v) = [] \<and> CR \<notin> set c
        \<and> structuredNameValue c = Some w \<longrightarrow> deriveName c = nameFromN w)
   \<and> (\<not> containsCI ''FN'' c \<and> CR \<notin> set c \<and> structuredNameValue c = Some w
        \<longrightarrow> deriveName c = nameFromN w)
   \<and> (components w = family # given # others \<and> family \<noteq> [] \<and> given \<noteq> []
        \<longrightarrow> nameFromN w = given @ '' '' @ family)
   \<and> (filter (\<lambda>p. p \<noteq> []) (components w) = [p] \<longrightarrow> nameFromN w = p)
   \<and> (\<not> containsCI ''FN'' c \<and> CR \<notin> set c \<and> firstLineWith (startsWithBy ciEq ''N'') c = None
        \<longrightarrow> deriveName c = [] \<and> processContact c m = m)
   \<and> unescape [BSL, CHR '',''] = '',''
   \<and> unescape [BSL, CHR '';''] = '';''
   \<and> unescape [BSL, CHR ''n''] = '' ''
   \<and> unescape [BSL, BSL] = [BSL]"
proof -
  have 0: "c \<in> set (splitContacts text) \<longrightarrow> CR \<notin> set c"
    using splitContacts_no_CR by blast
  have 1: "fullNameValue c = Some v \<and> unescape (trim v) \<noteq> [] \<longrightarrow> deriveName c = unescape (trim v)"
    using fullNameValue_fnMatch deriveName_FN by blast
  have 2: "fullNameValue c = Some v \<and> unescape (trim v) = [] \<and> CR \<notin> set c
        \<and> structuredNameValue c = Some w \<longrightarrow> deriveName c = nameFromN w"
    using fullNameValue_fnMatch structuredNameValue_nMatch deriveName_N by blast
  have 3: "\<not> containsCI ''FN'' c \<and> CR \<notin> set c \<and> structuredNameValue c = Some w
        \<longrightarrow> deriveName c = nameFromN w"
    using fnMatch_None_iff structuredNameValue_nMatch deriveName_N by blast
  have 4: "components w = family # given # others \<and> family \<noteq> [] \<and> given \<noteq> []
        \<longrightarrow> nameFromN w = given @ '' '' @ family"
    by (simp add: nameFromN_parts)
  have 5: "filter (\<lambda>p. p \<noteq> []) (components w) = [p] \<longrightarrow> nameFromN w = p"
    by (simp add: nameFromN_parts)
  have 6: "\<not> containsCI ''FN'' c \<and> CR \<notin> set c \<and> firstLineWith (startsWithBy ciEq ''N'') c = None
        \<longrightarrow> deriveName c = [] \<and> processContact c m = m"
    using fnMatch_None_iff no_N_line_nMatch deriveName_none by blast
  have 7: "unescape [BSL, CHR '',''] = '',''" "unescape [BSL, CHR '';''] = '';''"
    "unescape [BSL, CHR ''n''] = '' ''" "unescape [BSL, BSL] = [BSL]"
    by code_simp+
  from 0 1 2 3 4 5 6 7 show ?thesis by blast
qed

text \<open>One record for each case: a full name with an escaped comma; an empty full name with
  a structured name; a structured name alone; a given name alone; no name at all; and the
  record of a text with Windows line ends, which holds no carriage return.\<close>

theorem deriveName_cases_witness:
  "deriveName fullNameChunk = ''Doe, Jane''
   \<and> deriveName emptyFullNameChunk = ''John Doe''
   \<and> deriveName structuredNameChunk = ''John Doe''
   \<and> deriveName givenOnlyChunk = ''John''
   \<and> deriveName namelessChunk = []
   \<and> processContact namelessChunk Map.empty = Map.empty
   \<and> CR \<notin> set (splitContacts crlfText ! 1)
   \<and> deriveName (splitContacts crlfText ! 1) = ''Jane Doe''"
proof -
  have a: "fullNameValue fullNameChunk = Some (''Doe'' @ [BSL] @ '', Jane'')"
    "unescape (trim (''Doe'' @ [BSL] @ '', Jane'')) = ''Doe, Jane''"
    by code_simp+
  have b: "fullNameValue emptyFullNameChunk = Some []" "unescape (trim []) = []"
    "CR \<notin> set emptyFullNameChunk"
    "structuredNameValue emptyFullNameChunk = Some ''Doe;John''"
    "components ''Doe;John'' = ''Doe'' # ''John'' # []"
    by code_simp+
  have c: "\<not> containsCI ''FN'' structuredNameChunk" "CR \<notin> set structuredNameChunk"
    "structuredNameValue structuredNameChunk = Some '' Doe ; John ;;;''"
    "components '' Doe ; John ;;;'' = ''Doe'' # ''John'' # [[], [], []]"
    by code_simp+
  have d: "\<not> containsCI ''FN'' givenOnlyChunk" "CR \<notin> set givenOnlyChunk"
    "structuredNameValue givenOnlyChunk = Some '';John;;;''"
    "filter (\<lambda>p. p \<noteq> []) (components '';John;;;'') = [''John'']"
    by code_simp+
  have e: "\<not> containsCI ''FN'' namelessChunk" "CR \<notin> set namelessChunk"
    "firstLineWith (startsWithBy ciEq ''N'') namelessChunk = None"
    by code_simp+
  have f: "splitContacts crlfText ! 1 \<in> set (splitContacts crlfText)"
    "fullNameValue (splitContacts crlfText ! 1) = Some ''Jane Doe''"
    "unescape (trim ''Jane Doe'') = ''Jane Doe''"
    by code_simp+
  have "deriveName fullNameChunk = ''Doe, Jane''"
    using deriveName_cases [of fullNameChunk _ "''Doe'' @ [BSL] @ '', Jane''"] a by simp
  moreover have "deriveName emptyFullNameChunk = ''John Doe''"
    using deriveName_cases [of emptyFullNameChunk _ "[]" "''Doe;John''" "''Doe''" "''John''" "[]"] b
    by simp
  moreover have "deriveName structuredNameChunk = ''John Doe''"
    using deriveName_cases
      [of structuredNameChunk _ _ "'' Doe ; John ;;;''" "''Doe''" "''John''" "[[], [], []]"] c
    by simp
  moreover have "deriveName givenOnlyChunk = ''John''"
    using deriveName_cases [of givenOnlyChunk _ _ "'';John;;;''" _ _ _ "''John''"] d
    by simp
  moreover have "deriveName namelessChunk = [] \<and> processContact namelessChunk Map.empty = Map.empty"
    using deriveName_cases [of namelessChunk _ _ _ _ _ _ _ Map.empty] e by simp
  moreover have "CR \<notin> set (splitContacts crlfText ! 1)"
    using deriveName_cases [of "splitContacts crlfText ! 1" crlfText] f(1) by blast
  moreover have "deriveName (splitContacts crlfText ! 1) = ''Jane Doe''"
    using deriveName_cases [of "splitContacts crlfText ! 1" _ "''Jane Doe''"] f(2,3) by simp
  ultimately show ?thesis by simp
qed

text \<open>Six records of \<open>namesText\<close> where the name is not what the claim states: a full-name
  field with a parameter (the field's value is \<open>Jane Doe\<close>); a full-name field that is
  present and empty (the name comes from the structured field); an escaped newline (it
  becomes a space, not a newline); a structured name with an empty family component (given
  is \<open>John\<close>, the name is \<open>Quincy John\<close>); a full-name field after a line that holds the
  letters FN (the field's value is \<open>Jane Doe\<close>); a structured-name field after a line that
  starts with N (the name should be \<open>John Doe\<close>).\<close>

theorem deriveName_counterexample:
  "parseVCard namesText ''5550000001'' = Some ''CHARSET=UTF-8:Jane Doe''
   \<and> parseVCard namesText ''5550000002'' = Some ''John Doe''
   \<and> parseVCard namesText ''5550000003'' = Some ''Ann Lee''
   \<and> parseVCard namesText ''5550000004'' = Some ''Quincy John''
   \<and> parseVCard namesText ''5550000005'' = Some ''ote Inc''
   \<and> parseVCard namesText ''5550000006'' = Some ''OTE:hello''"
  by code_simp

subsection \<open>The keys of a telephone value\<close>

text \<open>
  Claim C6, as the code has it. Every key of the directory has at least 10 characters, all
  of them digits, and a telephone value whose normalized key is shorter than 10 digits
  stores nothing. For every key of the directory of length 11 that starts with \<open>1\<close>, the
  directory also has the 10-digit suffix key; both map to the name of the record \<open>c\<close> that
  wrote the key when no later record writes either of the two keys. The text of the
  scenario yields the keys 15551234567 and 5551234567, each mapped to Jane Doe, and no
  other key.
\<close>

theorem parseVCard_phone_keys:
  "(k \<in> dom (parseVCard text) \<longrightarrow> 10 \<le> length k \<and> list_all isDigit k)
   \<and> (length (normalizePhoneNumber (unescape (trim tel))) < 10 \<longrightarrow> storePhone name tel m = m)
   \<and> (k \<in> dom (parseVCard text) \<and> length k = 11 \<and> take 1 k = ''1''
        \<longrightarrow> drop 1 k \<in> dom (parseVCard text))
   \<and> (splitContacts text = cs1 @ c # cs2 \<and> k \<in> set (contactKeys c)
        \<and> length k = 11 \<and> take 1 k = ''1''
        \<and> (\<forall>c' \<in> set cs2. k \<notin> set (contactKeys c') \<and> drop 1 k \<notin> set (contactKeys c'))
        \<longrightarrow> parseVCard text k = Some (deriveName c)
          \<and> parseVCard text (drop 1 k) = Some (deriveName c))
   \<and> parseVCard janeDoeText ''15551234567'' = Some ''Jane Doe''
   \<and> parseVCard janeDoeText ''5551234567'' = Some ''Jane Doe''
   \<and> dom (parseVCard janeDoeText) = {''15551234567'', ''5551234567''}"
proof -
  have 1: "k \<in> dom (parseVCard text) \<longrightarrow> 10 \<le> length k \<and> list_all isDigit k"
    by (auto simp: dom_parseVCard dest: contactKeys_digits)
  have 2: "length (normalizePhoneNumber (unescape (trim tel))) < 10 \<longrightarrow> storePhone name tel m = m"
    by (simp add: storePhone_def Let_def)
  have 3: "k \<in> dom (parseVCard text) \<and> length k = 11 \<and> take 1 k = ''1''
        \<longrightarrow> drop 1 k \<in> dom (parseVCard text)"
    unfolding dom_parseVCard using contactKeys_suffix by blast
  have 4: "splitContacts text = cs1 @ c # cs2 \<and> k \<in> set (contactKeys c)
        \<and> length k = 11 \<and> take 1 k = ''1''
        \<and> (\<forall>c' \<in> set cs2. k \<notin> set (contactKeys c') \<and> drop 1 k \<notin> set (contactKeys c'))
        \<longrightarrow> parseVCard text k = Some (deriveName c)
          \<and> parseVCard text (drop 1 k) = Some (deriveName c)"
  proof (intro impI)
    assume a: "splitContacts text = cs1 @ c # cs2 \<and> k \<in> set (contactKeys c)
        \<and> length k = 11 \<and> take 1 k = ''1''
        \<and> (\<forall>c' \<in> set cs2. k \<notin> set (contactKeys c') \<and> drop 1 k \<notin> set (contactKeys c'))"
    then have s: "drop 1 k \<in> set (contactKeys c)" by (intro contactKeys_suffix) simp_all
    from a have "fold processContact (cs1 @ c # cs2) Map.empty k = Some (deriveName c)"
      by (intro fold_processContact_last) simp_all
    moreover from a s
    have "fold processContact (cs1 @ c # cs2) Map.empty (drop 1 k) = Some (deriveName c)"
      by (intro fold_processContact_last) simp_all
    ultimately show "parseVCard text k = Some (deriveName c)
          \<and> parseVCard text (drop 1 k) = Some (deriveName c)"
      using a by (simp add: parseVCard_def)
  qed
  have 5: "parseVCard janeDoeText ''15551234567'' = Some ''Jane Doe''" by code_simp
  have 6: "parseVCard janeDoeText ''5551234567'' = Some ''Jane Doe''" by code_simp
  have "concat (map contactKeys (splitContacts janeDoeText))
          = [''15551234567'', ''5551234567'', ''5551234567'']"
    by code_simp
  then have "set (concat (map contactKeys (splitContacts janeDoeText)))
          = {''15551234567'', ''5551234567''}"
    by simp
  then have 7: "dom (parseVCard janeDoeText) = {''15551234567'', ''5551234567''}"
    by (simp add: dom_parseVCard)
  from 1 2 3 4 5 6 7 show ?thesis by blast
qed

theorem parseVCard_phone_keys_witness:
  "parseVCard janeDoeText ''15551234567'' = Some ''Jane Doe''
   \<and> parseVCard janeDoeText ''5551234567'' = Some ''Jane Doe''
   \<and> list_all isDigit ''15551234567''
   \<and> storePhone ''Jane Doe'' ''555-1234'' Map.empty = Map.empty"
proof -
  define c where "c = ''\<newline>FN:Jane Doe\<newline>TEL:+1 (555) 123-4567\<newline>END:VCARD''"
  have split: "splitContacts janeDoeText = [[]] @ c # []" unfolding c_def by code_simp
  have key: "''15551234567'' \<in> set (contactKeys c)" unfolding c_def by code_simp
  have name: "deriveName c = ''Jane Doe''" unfolding c_def by code_simp
  have short: "length (normalizePhoneNumber (unescape (trim ''555-1234''))) < 10"
    by code_simp
  note t = parseVCard_phone_keys
    [of "''15551234567''" janeDoeText "''555-1234''" "''Jane Doe''" Map.empty "[[]]" c "[]"]
  from t have d: "''15551234567'' \<in> dom (parseVCard janeDoeText)" by blast
  from t d have "list_all isDigit ''15551234567''" by blast
  moreover from t short have "storePhone ''Jane Doe'' ''555-1234'' Map.empty = Map.empty"
    by blast
  moreover from t split key name
  have "parseVCard janeDoeText ''15551234567'' = Some ''Jane Doe''
      \<and> parseVCard janeDoeText (drop 1 ''15551234567'') = Some ''Jane Doe''"
    by simp
  ultimately show ?thesis by simp
qed

text \<open>Jane's record, then Bob's with the same number written without the country code: the
  11-digit key keeps Jane, its 10-digit suffix key maps to Bob.\<close>

theorem parseVCard_suffix_name_counterexample:
  "parseVCard janeThenBobText ''15551234567'' = Some ''Jane Doe''
   \<and> parseVCard janeThenBobText ''5551234567'' = Some ''Bob''"
  by code_simp

subsection \<open>The full-name match is not anchored\<close>

text \<open>
  Claim C10. The full-name match is not anchored to the start of a line: wherever the
  letters FN (in either case) first occur in the record, the text after them (one
  following \<open>;\<close> or \<open>:\<close> skipped) up to the end of that line is the match, and when it is
  not empty after trimming and unescaping it is the display name. So a record with no
  line that starts with FN can still get a name.
\<close>

theorem fnMatch_unanchored:
  "fnMatch (pre @ [a]) = None \<Longrightarrow> ciEq (CHR ''F'') a \<Longrightarrow> ciEq (CHR ''N'') b \<Longrightarrow>
   fnMatch (pre @ a # b # rest) = Some (restOfLine (skipSeparator rest))
   \<and> (unescape (trim (restOfLine (skipSeparator rest))) \<noteq> [] \<longrightarrow>
        deriveName (pre @ a # b # rest) = unescape (trim (restOfLine (skipSeparator rest))))"
  by (simp add: fnMatch_first_occurrence deriveName_FN)

text \<open>The two records of \<open>halfnoteText\<close> have no line that starts with FN. The first has the
  letters inside a value (\<open>ORG:Halfnote Inc\<close>), the second inside a field name
  (\<open>X-FNORD;a:b\<close>); both get a name and an entry in the directory.\<close>

theorem fnMatch_unanchored_witness:
  "splitContacts halfnoteText ! 1
     = ''\<newline>ORG:Hal'' @ CHR ''f'' # CHR ''n'' # ''ote Inc\<newline>TEL:555-123-4567\<newline>END:VCARD\<newline>''
   \<and> list_all (\<lambda>l. \<not> startsWithBy ciEq ''FN'' l) (linesOf (splitContacts halfnoteText ! 1))
   \<and> deriveName (splitContacts halfnoteText ! 1) = ''ote Inc''
   \<and> parseVCard halfnoteText ''5551234567'' = Some ''ote Inc''
   \<and> list_all (\<lambda>l. \<not> startsWithBy ciEq ''FN'' l) (linesOf (splitContacts halfnoteText ! 2))
   \<and> parseVCard halfnoteText ''5551234568'' = Some ''ORD;a:b''"
proof -
  let ?pre = "''\<newline>ORG:Hal''"
  let ?rest = "''ote Inc\<newline>TEL:555-123-4567\<newline>END:VCARD\<newline>''"
  have c: "splitContacts halfnoteText ! 1 = ?pre @ CHR ''f'' # CHR ''n'' # ?rest" by code_simp
  have h: "fnMatch (?pre @ [CHR ''f'']) = None" "ciEq (CHR ''F'') (CHR ''f'')"
    "ciEq (CHR ''N'') (CHR ''n'')"
    by code_simp+
  have v: "unescape (trim (restOfLine (skipSeparator ?rest))) = ''ote Inc''" by code_simp
  have "deriveName (?pre @ CHR ''f'' # CHR ''n'' # ?rest) = ''ote Inc''"
    using fnMatch_unanchored [OF h, of ?rest] v by simp
  then have 1: "deriveName (splitContacts halfnoteText ! 1) = ''ote Inc''" using c by simp
  have 2: "list_all (\<lambda>l. \<not> startsWithBy ciEq ''FN'' l) (linesOf (splitContacts halfnoteText ! 1))"
    "parseVCard halfnoteText ''5551234567'' = Some ''ote Inc''"
    "list_all (\<lambda>l. \<not> startsWithBy ciEq ''FN'' l) (linesOf (splitContacts halfnoteText ! 2))"
    "parseVCard halfnoteText ''5551234568'' = Some ''ORD;a:b''"
    by code_simp+
  from c 1 2 show ?thesis by simp
qed

section \<open>Message Store Aggregator and Statistics Assembler\<close>

subsection \<open>The per-handle summary\<close>

text \<open>
  Claim C2, as the code has it. When a request succeeds on a store with tables \<open>ms\<close>
  (messages), \<open>hs\<close> (handles), \<open>js\<close> (chat joins) and \<open>cs\<close> (chats):
  \<^item> every row of the per-handle summary whose handle has at least one message, all of them
    with direction flag 0 or 1, has receivedCount + sentCount = messageCount;
  \<^item> when every handle has at least one message, no message is joined to more than one chat
    and chat row ids are distinct, the sum of messageCount over all rows is the number of
    rows of the all-messages result that have a handle;
  \<^item> totalMessages is the number of rows of the all-messages result.
\<close>

theorem contact_summary_counts:
  assumes "POST env req = (Json200 r, st)" and "req_file req = Some (Database db)"
    and "message_table db = Some ms" and "handle_table db = Some hs"
    and "chat_message_join_table db = Some js" and "chat_table db = Some cs"
  shows "(\<forall>c \<in> set (contacts r).
            (\<exists>m \<in> set ms. m_handle_id m = Some (fc_id c))
            \<and> (\<forall>m \<in> set ms. m_handle_id m = Some (fc_id c) \<longrightarrow>
                  m_is_from_me m = Some 0 \<or> m_is_from_me m = Some 1)
            \<longrightarrow> fc_receivedCount c + fc_sentCount c = fc_messageCount c)
    \<and> ((\<forall>h \<in> set hs. \<exists>m \<in> set ms. m_handle_id m = Some (h_ROWID h))
         \<and> (\<forall>m \<in> set ms. length (filter (\<lambda>j. cmj_message_id j = Some (m_ROWID m)) js) \<le> 1)
         \<and> distinct (map c_ROWID cs)
        \<longrightarrow> sum_list (map fc_messageCount (contacts r))
            = length (filter (\<lambda>m. r_phone_number m \<noteq> None)
                        (messagesRows (localOffset env) ms hs js cs)))
    \<and> totalMessages (summary r) = length (messagesRows (localOffset env) ms hs js cs)"
proof -
  let ?dir = "loadContacts (req_contactsFile req)"
  from POST_result [OF assms]
  have r: "r = assemble ?dir (messagesRows (localOffset env) ms hs js cs) (contactsRows ms hs)
               (dailyStatsRows (localOffset env) ms) (hourlyStatsRows (localOffset env) ms)"
    by simp
  then have cs: "contacts r = map (formatContact ?dir) (contactsRows ms hs)"
    by (simp add: assemble_def)
  have 1: "fc_receivedCount c + fc_sentCount c = fc_messageCount c"
    if "c \<in> set (contacts r)" and "\<exists>m \<in> set ms. m_handle_id m = Some (fc_id c)"
      and "\<forall>m \<in> set ms. m_handle_id m = Some (fc_id c) \<longrightarrow>
                  m_is_from_me m = Some 0 \<or> m_is_from_me m = Some 1" for c
  proof -
    from that(1) cs obtain row where row: "row \<in> set (contactsRows ms hs)"
      "c = formatContact ?dir row"
      by auto
    from row(2) have "fc_id c = cr_ROWID row" by (simp add: formatContact_def)
    with that(2,3) row(1)
    have "cr_received_count row + cr_sent_count row = cr_message_count row"
      by (intro contact_row_balance) simp_all
    with row(2) show ?thesis by (simp add: formatContact_def)
  qed
  have m: "map fc_messageCount (contacts r) = map cr_message_count (contactsRows ms hs)"
    by (simp add: cs comp_def formatContact_def)
  have 2: "sum_list (map fc_messageCount (contacts r))
            = length (filter (\<lambda>m. r_phone_number m \<noteq> None)
                        (messagesRows (localOffset env) ms hs js cs))"
    if "\<forall>h \<in> set hs. \<exists>m \<in> set ms. m_handle_id m = Some (h_ROWID h)"
      and "\<forall>m \<in> set ms. length (filter (\<lambda>j. cmj_message_id j = Some (m_ROWID m)) js) \<le> 1"
      and "distinct (map c_ROWID cs)"
    unfolding m using that by (rule sum_counts_eq_messages)
  have 3: "totalMessages (summary r) = length (messagesRows (localOffset env) ms hs js cs)"
    by (simp add: r assemble_def)
  from 1 2 3 show ?thesis by blast
qed

text \<open>The two-message store: one handle with a sent and a received message.\<close>

theorem contact_summary_counts_witness:
  "map_option (\<lambda>r. map (\<lambda>c. (fc_messageCount c, fc_receivedCount c, fc_sentCount c)) (contacts r))
     (resultOf (POST utc \<lparr>req_file = Some twoMessageStore, req_contactsFile = None\<rparr>))
   = Some [(2, 1, 1)]
   \<and> length (filter (\<lambda>m. r_phone_number m \<noteq> None)
        (messagesRows (localOffset utc)
           [messageRow 1 (Some 0) (Some 1) (Some 1), messageRow 2 (Some 3600000000000) (Some 0) (Some 1)]
           [\<lparr>h_ROWID = 1, h_id = ''+15551234567''\<rparr>] [] [])) = 2"
proof -
  let ?ms = "[messageRow 1 (Some 0) (Some 1) (Some 1), messageRow 2 (Some 3600000000000) (Some 0) (Some 1)]"
  let ?hs = "[\<lparr>h_ROWID = 1, h_id = ''+15551234567''\<rparr>]"
  let ?db = "\<lparr>message_table = Some ?ms, handle_table = Some ?hs,
               chat_message_join_table = Some [], chat_table = Some []\<rparr>"
  let ?req = "\<lparr>req_file = Some twoMessageStore, req_contactsFile = None\<rparr>"
  let ?r = "assemble (loadContacts None) (messagesRows (localOffset utc) ?ms ?hs [] [])
              (contactsRows ?ms ?hs) (dailyStatsRows (localOffset utc) ?ms)
              (hourlyStatsRows (localOffset utc) ?ms)"
  have post: "POST utc ?req = (Json200 ?r, Closed)"
    by (simp add: twoMessageStore_def POST_store utc_def)
  have f: "req_file ?req = Some (Database ?db)"
    by (simp add: twoMessageStore_def store_def)
  note t = contact_summary_counts [OF post f, of ?ms ?hs "[]" "[]"]
  have rows: "map (\<lambda>c. (fc_id c, fc_messageCount c, fc_receivedCount c)) (contacts ?r) = [(1, 2, 1)]"
    by code_simp
  then obtain c where c: "contacts ?r = [c]" "fc_id c = 1" "fc_messageCount c = 2"
    "fc_receivedCount c = 1"
    by auto
  have "fc_receivedCount c + fc_sentCount c = fc_messageCount c"
    using t c(1,2) by (simp add: messageRow_def)
  with c have sent: "fc_sentCount c = 1" by simp
  have "sum_list (map fc_messageCount (contacts ?r))
            = length (filter (\<lambda>m. r_phone_number m \<noteq> None)
                        (messagesRows (localOffset utc) ?ms ?hs [] []))"
    using t by (simp add: messageRow_def)
  with c have "length (filter (\<lambda>m. r_phone_number m \<noteq> None)
                        (messagesRows (localOffset utc) ?ms ?hs [] [])) = 2"
    by simp
  with c sent post show ?thesis by (simp add: resultOf_def)
qed

text \<open>A handle without messages, and a handle whose only message has the flag 2: both rows
  have messageCount 1 with receivedCount 0 and sentCount 0, and the two counts add up to 2
  where the store has one message.\<close>

theorem contact_summary_counts_counterexample:
  "map_option contacts
     (resultOf (POST utc \<lparr>req_file = Some idleHandleStore, req_contactsFile = None\<rparr>))
   = Some [\<lparr>fc_id = 1, fc_phoneNumber = ''+15551230001'', fc_contactName = None,
             fc_messageCount = 1, fc_receivedCount = 0, fc_sentCount = 0\<rparr>,
           \<lparr>fc_id = 2, fc_phoneNumber = ''+15551230002'', fc_contactName = None,
             fc_messageCount = 1, fc_receivedCount = 0, fc_sentCount = 0\<rparr>]
   \<and> map_option summary
     (resultOf (POST utc \<lparr>req_file = Some idleHandleStore, req_contactsFile = None\<rparr>))
   = Some \<lparr>totalMessages = 1, sentMessages = 0, receivedMessages = 0, uniqueContacts = 2\<rparr>"
  by code_simp

subsection \<open>The summary\<close>

text \<open>
  Claim C4, as the code has it. When a request succeeds, totalMessages is the row count of
  the all-messages result, sentMessages the count of its rows whose direction flag is 1,
  receivedMessages the count of its rows whose direction flag is 0, and uniqueContacts the
  row count of the per-handle summary. A row whose flag is NULL or another value counts as
  neither sent nor received; when every message has the flag 0 or 1, receivedMessages is
  the count of the rows that are not sent.
\<close>

theorem summary_of_store:
  assumes "POST env req = (Json200 r, st)" and "req_file req = Some (Database db)"
    and "message_table db = Some ms" and "handle_table db = Some hs"
    and "chat_message_join_table db = Some js" and "chat_table db = Some cs"
  shows "totalMessages (summary r) = length (messagesRows (localOffset env) ms hs js cs)
    \<and> sentMessages (summary r)
        = length (filter (\<lambda>m. r_is_from_me m = Some 1) (messagesRows (localOffset env) ms hs js cs))
    \<and> receivedMessages (summary r)
        = length (filter (\<lambda>m. r_is_from_me m = Some 0) (messagesRows (localOffset env) ms hs js cs))
    \<and> uniqueContacts (summary r) = length (contactsRows ms hs)
    \<and> ((\<forall>m \<in> set ms. m_is_from_me m = Some 0 \<or> m_is_from_me m = Some 1) \<longrightarrow>
        receivedMessages (summary r)
        = length (filter (\<lambda>m. r_is_from_me m \<noteq> Some 1) (messagesRows (localOffset env) ms hs js cs)))"
proof -
  let ?rows = "messagesRows (localOffset env) ms hs js cs"
  from POST_result [OF assms]
  have r: "r = assemble (loadContacts (req_contactsFile req)) ?rows (contactsRows ms hs)
               (dailyStatsRows (localOffset env) ms) (hourlyStatsRows (localOffset env) ms)"
    by simp
  have "filter (\<lambda>m. r_is_from_me m = Some 0) ?rows = filter (\<lambda>m. r_is_from_me m \<noteq> Some 1) ?rows"
    if flags: "\<forall>m \<in> set ms. m_is_from_me m = Some 0 \<or> m_is_from_me m = Some 1"
  proof (rule filter_cong [OF refl])
    fix x assume "x \<in> set ?rows"
    then obtain m h c where "m \<in> set ms" "x = messageResult (localOffset env) m h c"
      using messagesRows_member by blast
    with flags have "r_is_from_me x = Some 0 \<or> r_is_from_me x = Some 1"
      by (simp add: messageResult_def)
    then show "(r_is_from_me x = Some 0) = (r_is_from_me x \<noteq> Some 1)" by auto
  qed
  then show ?thesis by (simp add: r assemble_def)
qed

text \<open>The scenario: two messages with the flags 1 and 0.\<close>

theorem summary_of_store_witness:
  "map_option summary
     (resultOf (POST utc \<lparr>req_file = Some twoMessageStore, req_contactsFile = None\<rparr>))
   = Some \<lparr>totalMessages = 2, sentMessages = 1, receivedMessages = 1, uniqueContacts = 1\<rparr>
   \<and> length (filter (\<lambda>m. r_is_from_me m \<noteq> Some 1)
        (messagesRows (localOffset utc)
           [messageRow 1 (Some 0) (Some 1) (Some 1), messageRow 2 (Some 3600000000000) (Some 0) (Some 1)]
           [\<lparr>h_ROWID = 1, h_id = ''+15551234567''\<rparr>] [] [])) = 1"
proof -
  let ?ms = "[messageRow 1 (Some 0) (Some 1) (Some 1), messageRow 2 (Some 3600000000000) (Some 0) (Some 1)]"
  let ?hs = "[\<lparr>h_ROWID = 1, h_id = ''+15551234567''\<rparr>]"
  let ?db = "\<lparr>message_table = Some ?ms, handle_table = Some ?hs,
               chat_message_join_table = Some [], chat_table = Some []\<rparr>"
  let ?req = "\<lparr>req_file = Some twoMessageStore, req_contactsFile = None\<rparr>"
  obtain r where post: "POST utc ?req = (Json200 r, Closed)"
    by (simp add: twoMessageStore_def POST_store utc_def)
  have f: "req_file ?req = Some (Database ?db)"
    by (simp add: twoMessageStore_def store_def)
  have n: "length (messagesRows (localOffset utc) ?ms ?hs [] []) = 2"
    "length (filter (\<lambda>m. r_is_from_me m = Some 1) (messagesRows (localOffset utc) ?ms ?hs [] [])) = 1"
    "length (filter (\<lambda>m. r_is_from_me m = Some 0) (messagesRows (localOffset utc) ?ms ?hs [] [])) = 1"
    "length (contactsRows ?ms ?hs) = 1"
    by code_simp+
  note t = summary_of_store [OF post f, of ?ms ?hs "[]" "[]"]
  from t n
  have s: "summary r = \<lparr>totalMessages = 2, sentMessages = 1, receivedMessages = 1, uniqueContacts = 1\<rparr>"
    by simp
  have flags: "\<forall>m \<in> set ?ms. m_is_from_me m = Some 0 \<or> m_is_from_me m = Some 1"
    by (simp add: messageRow_def)
  with t have "receivedMessages (summary r)
        = length (filter (\<lambda>m. r_is_from_me m \<noteq> Some 1) (messagesRows (localOffset utc) ?ms ?hs [] []))"
    by simp
  with s have "length (filter (\<lambda>m. r_is_from_me m \<noteq> Some 1)
                 (messagesRows (localOffset utc) ?ms ?hs [] [])) = 1"
    by simp
  with s post show ?thesis by (simp add: resultOf_def)
qed

text \<open>Two messages with the flags NULL and 2: neither is sent, and receivedMessages is 0.\<close>

theorem summary_of_store_counterexample:
  "map_option summary
     (resultOf (POST utc \<lparr>req_file = Some oddFlagStore, req_contactsFile = None\<rparr>))
   = Some \<lparr>totalMessages = 2, sentMessages = 0, receivedMessages = 0, uniqueContacts = 1\<rparr>"
  by code_simp

subsection \<open>Result-size limits\<close>




subsection \<open>Contacts never fail the request\<close>

text \<open>
  Claim C7. Whatever the contacts upload is (absent, unreadable, or any text, which
  \<open>parseVCard\<close> maps to a directory without ever failing), the request fails exactly when it
  fails without the upload, with the same error and the same effect on the store. When the
  contacts upload cannot be read the directory is empty, the response is the one of a
  request without contacts, and every contactName of the result is absent.
\<close>

theorem contacts_never_fail_request:
  "(fst (POST env \<lparr>req_file = f, req_contactsFile = cf\<rparr>) = JsonError status e
      \<longleftrightarrow> fst (POST env \<lparr>req_file = f, req_contactsFile = None\<rparr>) = JsonError status e)
   \<and> snd (POST env \<lparr>req_file = f, req_contactsFile = cf\<rparr>)
       = snd (POST env \<lparr>req_file = f, req_contactsFile = None\<rparr>)
   \<and> loadContacts (Some ContactsUnreadable) = Map.empty
   \<and> POST env \<lparr>req_file = f, req_contactsFile = Some ContactsUnreadable\<rparr>
       = POST env \<lparr>req_file = f, req_contactsFile = None\<rparr>
   \<and> (POST env \<lparr>req_file = f, req_contactsFile = Some ContactsUnreadable\<rparr> = (Json200 r, st)
        \<longrightarrow> list_all (\<lambda>m. fm_contactName m = None) (messages r)
          \<and> list_all (\<lambda>c. fc_contactName c = None) (contacts r))"
proof -
  have 1: "fst (POST env \<lparr>req_file = f, req_contactsFile = cf\<rparr>) = JsonError status e
      \<longleftrightarrow> fst (POST env \<lparr>req_file = f, req_contactsFile = None\<rparr>) = JsonError status e"
    by (simp add: POST_def Let_def split: option.splits sum.splits)
  have 2: "snd (POST env \<lparr>req_file = f, req_contactsFile = cf\<rparr>)
       = snd (POST env \<lparr>req_file = f, req_contactsFile = None\<rparr>)"
    by (simp add: POST_def Let_def split: option.splits sum.splits)
  have 3: "loadContacts (Some ContactsUnreadable) = Map.empty"
    by (simp add: loadContacts_def)
  have 4: "POST env \<lparr>req_file = f, req_contactsFile = Some ContactsUnreadable\<rparr>
       = POST env \<lparr>req_file = f, req_contactsFile = None\<rparr>"
    by (cases f) (simp_all add: POST_def loadContacts_def)
  have name: "getContactName Map.empty p = None" for p
    by (simp add: getContactName_def jsOr_def Let_def split: option.splits)
  have 5: "list_all (\<lambda>m. fm_contactName m = None) (messages r)
          \<and> list_all (\<lambda>c. fc_contactName c = None) (contacts r)"
    if "POST env \<lparr>req_file = f, req_contactsFile = Some ContactsUnreadable\<rparr> = (Json200 r, st)"
  proof -
    from that obtain msgs cs daily hourly
      where "r = assemble Map.empty msgs cs daily hourly"
      by (auto simp: POST_def Let_def loadContacts_def split: option.splits sum.splits)
    then show ?thesis
      by (auto simp: assemble_def list_all_iff formatMessage_def formatContact_def name
          dest!: in_set_takeD)
  qed
  from 1 2 3 4 5 show ?thesis by blast
qed

text \<open>An unreadable contacts upload with the two-message store, and a truncated vCard with a
  database that has no tables: the first succeeds without names, the second fails only
  because of the database.\<close>

theorem contacts_never_fail_request_witness:
  "map_option (\<lambda>r. (map fm_contactName (messages r), map fc_contactName (contacts r)))
     (resultOf (POST utc \<lparr>req_file = Some twoMessageStore,
                          req_contactsFile = Some ContactsUnreadable\<rparr>))
   = Some ([None, None], [None])
   \<and> fst (POST utc \<lparr>req_file = Some emptyDatabase,
                       req_contactsFile = Some (ContactsText ''BEGIN:VCARD\<newline>FN'')\<rparr>)
     = JsonError 500 ''no such table: message''"
proof -
  let ?ms = "[messageRow 1 (Some 0) (Some 1) (Some 1), messageRow 2 (Some 3600000000000) (Some 0) (Some 1)]"
  let ?hs = "[\<lparr>h_ROWID = 1, h_id = ''+15551234567''\<rparr>]"
  let ?req = "\<lparr>req_file = Some twoMessageStore, req_contactsFile = Some ContactsUnreadable\<rparr>"
  let ?r = "assemble (loadContacts (Some ContactsUnreadable))
              (messagesRows (localOffset utc) ?ms ?hs [] [])
              (contactsRows ?ms ?hs) (dailyStatsRows (localOffset utc) ?ms)
              (hourlyStatsRows (localOffset utc) ?ms)"
  have post: "POST utc ?req = (Json200 ?r, Closed)"
    by (simp add: twoMessageStore_def POST_store utc_def)
  have len: "length (messages ?r) = 2" "length (contacts ?r) = 1"
    by code_simp+
  from contacts_never_fail_request [of utc "Some twoMessageStore" _ _ _ ?r Closed] post
  have none: "list_all (\<lambda>m. fm_contactName m = None) (messages ?r)"
    "list_all (\<lambda>c. fc_contactName c = None) (contacts ?r)"
    by blast+
  have "map fm_contactName (messages ?r) = replicate (length (messages ?r)) None"
    using none(1) by (rule map_const_replicate)
  moreover have "map fc_contactName (contacts ?r) = replicate (length (contacts ?r)) None"
    using none(2) by (rule map_const_replicate)
  ultimately have "map fm_contactName (messages ?r) = [None, None]"
    "map fc_contactName (contacts ?r) = [None]"
    unfolding len by (simp_all add: numeral_2_eq_2)
  moreover have "fst (POST utc \<lparr>req_file = Some emptyDatabase, req_contactsFile = None\<rparr>)
     = JsonError 500 ''no such table: message''"
    by code_simp
  then have "fst (POST utc \<lparr>req_file = Some emptyDatabase,
                       req_contactsFile = Some (ContactsText ''BEGIN:VCARD\<newline>FN'')\<rparr>)
     = JsonError 500 ''no such table: message''"
    using contacts_never_fail_request
      [of utc "Some emptyDatabase" "Some (ContactsText ''BEGIN:VCARD\<newline>FN'')" 500
        "''no such table: message''"]
    by blast
  ultimately show ?thesis using post by (simp add: resultOf_def)
qed

subsection \<open>Closing the store\<close>

text \<open>
  Claim C3, evaluated on the code. A database file that lacks the message table is opened,
  the first query throws, and the handler answers 500 with the store still open:
  \<^verbatim>\<open>db.close()\<close> is on the success path only, where the store ends closed.
\<close>

theorem POST_error_leaves_store_open:
  "POST utc \<lparr>req_file = Some emptyDatabase, req_contactsFile = None\<rparr>
     = (JsonError 500 ''no such table: message'', Open)
   \<and> snd (POST utc \<lparr>req_file = Some twoMessageStore, req_contactsFile = None\<rparr>) = Closed"
  by code_simp

end
